theory Spec2Isabelle
  imports Main "HOL-Library.AList"
begin

section \<open>Data model (types.ts)\<close>

text \<open>
  JavaScript strings are modelled as \<open>string\<close> (lists of characters), optional fields
  \<open>f?: T\<close> as \<open>T option\<close> with \<open>None\<close> for \<open>undefined\<close>, string-keyed objects as
  association lists in insertion order and a \<open>Map\<close> keyed by class identity as an
  association list keyed by a class identifier.
\<close>

datatype HttpMethod = GET | POST | PUT | DELETE | PATCH | OPTIONS | HEAD

text \<open>\<open>SchemaObject\<close>: the fields the inference engine ever writes.\<close>

datatype schema =
  Schema (s_type: string) (s_format: "string option") (s_description: "string option")
         (s_items: "schema option") (s_properties: "(string \<times> schema) list option")

abbreviation object_schema :: schema where
  "object_schema \<equiv> Schema ''object'' None None None None"

abbreviation string_schema :: schema where
  "string_schema \<equiv> Schema ''string'' None None None None"

abbreviation number_schema :: schema where
  "number_schema \<equiv> Schema ''number'' None None None None"

abbreviation boolean_schema :: schema where
  "boolean_schema \<equiv> Schema ''boolean'' None None None None"

abbreviation date_time_schema :: schema where
  "date_time_schema \<equiv> Schema ''string'' (Some ''date-time'') None None None"

abbreviation binary_schema :: schema where
  "binary_schema \<equiv> Schema ''string'' (Some ''binary'') None None None"

abbreviation array_schema :: "schema \<Rightarrow> schema" where
  "array_schema it \<equiv> Schema ''array'' None None (Some it) None"

datatype location = InQuery | InPath | InBody | InHeader

record ParameterMetadata =
  p_name :: string
  p_in :: location
  p_required :: "bool option"
  p_type :: string
  p_description :: "string option"
  p_schema :: "schema option"

record ResponseEntry =
  resp_description :: string
  resp_content :: "(string \<times> schema) list option"

type_synonym ResponseMetadata = "(string \<times> ResponseEntry) list"

record RouteMetadata =
  r_path :: string
  r_method :: HttpMethod
  r_handlerName :: string
  r_description :: "string option"
  r_summary :: "string option"
  r_tags :: "string list option"
  r_parameters :: "ParameterMetadata list option"
  r_responses :: "ResponseMetadata option"

record ControllerMetadata =
  c_path :: string
  c_description :: "string option"
  c_tags :: "string list option"

type_synonym class_id = nat

record OpenAPIMetadata =
  controllers :: "(class_id \<times> ControllerMetadata) list"
  routes :: "(class_id \<times> RouteMetadata list) list"

section \<open>Metadata store (metadata.ts)\<close>

record MetadataStorage =
  metadata :: OpenAPIMetadata

definition new_MetadataStorage :: MetadataStorage where
  "new_MetadataStorage = \<lparr> metadata = \<lparr> controllers = [], routes = [] \<rparr> \<rparr>"

definition addControllerMetadata ::
  "class_id \<Rightarrow> ControllerMetadata \<Rightarrow> MetadataStorage \<Rightarrow> MetadataStorage" where
  "addControllerMetadata target cm st =
     st\<lparr> metadata := (metadata st)\<lparr> controllers :=
           AList.update target cm (controllers (metadata st)) \<rparr> \<rparr>"

definition addRouteMetadata ::
  "class_id \<Rightarrow> RouteMetadata \<Rightarrow> MetadataStorage \<Rightarrow> MetadataStorage" where
  "addRouteMetadata target rm st =
     (let rs = (case map_of (routes (metadata st)) target of None \<Rightarrow> [] | Some l \<Rightarrow> l);
          rs' = rs @ [rm]
      in st\<lparr> metadata := (metadata st)\<lparr> routes :=
            AList.update target rs' (routes (metadata st)) \<rparr> \<rparr>)"

text \<open>\<open>getMetadata\<close> hands out the stored object itself; the store is threaded through.\<close>

definition getMetadata :: "MetadataStorage \<Rightarrow> OpenAPIMetadata \<times> MetadataStorage" where
  "getMetadata st = (metadata st, st)"

section \<open>String helpers used by the path composition\<close>

definition startsWith_slash :: "string \<Rightarrow> bool" where
  "startsWith_slash s = (case s of [] \<Rightarrow> False | c # _ \<Rightarrow> c = CHR ''/'')"

text \<open>\<open>s.startsWith('/') ? s : `/${s}`\<close>\<close>

definition lead_slash :: "string \<Rightarrow> string" where
  "lead_slash s = (if startsWith_slash s then s else CHR ''/'' # s)"

text \<open>
  \<open>s.replace(/\/+/g, '/')\<close>: scanning from the left, every maximal run of slashes is
  matched once (the quantifier is greedy) and replaced by one slash.
\<close>

function replace_slashes :: "string \<Rightarrow> string" where
  "replace_slashes [] = []"
| "replace_slashes (c # cs) =
     (if c = CHR ''/''
      then CHR ''/'' # replace_slashes (dropWhile (\<lambda>x. x = CHR ''/'') cs)
      else c # replace_slashes cs)"
  by pat_completeness auto
termination
  by (relation "measure length") (auto simp: length_dropWhile_le less_Suc_eq_le)

text \<open>
  The specification's wording, kept apart from the code: a slash that directly follows
  a slash is dropped, everything else is kept.
\<close>

fun collapse_runs :: "string \<Rightarrow> string" where
  "collapse_runs [] = []"
| "collapse_runs [c] = [c]"
| "collapse_runs (a # b # cs) =
     (if a = CHR ''/'' \<and> b = CHR ''/'' then collapse_runs (b # cs)
      else a # collapse_runs (b # cs))"

definition composed_path_spec :: "string \<Rightarrow> string \<Rightarrow> string \<Rightarrow> string" where
  "composed_path_spec base basePath routePath =
     collapse_runs (base @ basePath @ (if routePath = ''/'' then [] else routePath))"

section \<open>Specification builder (openapi.ts)\<close>

record Server =
  srv_url :: string
  srv_description :: "string option"

record OpenAPIOptions =
  o_title :: string
  o_version :: string
  o_description :: "string option"
  o_base :: "string option"
  o_servers :: "Server list option"

record RequestBody =
  rb_description :: string
  rb_required :: bool
  rb_content :: "(string \<times> schema) list"

record Operation =
  op_summary :: "string option"
  op_description :: "string option"
  op_tags :: "string list"
  op_responses :: ResponseMetadata
  op_parameters :: "ParameterMetadata list option"
  op_requestBody :: "RequestBody option"

record Info =
  i_title :: string
  i_version :: string
  i_description :: "string option"

type_synonym PathItem = "(HttpMethod \<times> Operation) list"

record OpenAPISpec =
  openapi :: string
  info :: Info
  servers :: "Server list"
  paths :: "(string \<times> PathItem) list"
  component_schemas :: "(string \<times> schema) list"

text \<open>\<open>x || d\<close> on an optional string: \<open>undefined\<close> and the empty string are falsy.\<close>

definition str_or :: "string option \<Rightarrow> string \<Rightarrow> string" where
  "str_or x d = (case x of None \<Rightarrow> d | Some s \<Rightarrow> if s = [] then d else s)"

text \<open>\<open>x || d\<close> on an optional object or array: only \<open>undefined\<close> is falsy.\<close>

definition obj_or :: "'a option \<Rightarrow> 'a \<Rightarrow> 'a" where
  "obj_or x d = (case x of None \<Rightarrow> d | Some v \<Rightarrow> v)"

definition default_responses :: ResponseMetadata where
  "default_responses =
     [(''200'', \<lparr> resp_description = ''Successful response'', resp_content = None \<rparr>)]"

definition fullPath :: "OpenAPIOptions \<Rightarrow> ControllerMetadata \<Rightarrow> RouteMetadata \<Rightarrow> string" where
  "fullPath opts cm route =
     (let basePath = (if startsWith_slash (c_path cm) then c_path cm else CHR ''/'' # c_path cm);
          basePrefix = str_or (o_base opts) [];
          routePath = (if startsWith_slash (r_path route) then r_path route
                       else CHR ''/'' # r_path route)
      in replace_slashes
           (basePrefix @ basePath @ (if routePath = ''/'' then [] else routePath)))"

definition requestBody_of :: "ParameterMetadata \<Rightarrow> RequestBody" where
  "requestBody_of bodyParam =
     \<lparr> rb_description = str_or (p_description bodyParam) ''Request body'',
       rb_required = (p_required bodyParam \<noteq> Some False),
       rb_content = [(''application/json'', obj_or (p_schema bodyParam) object_schema)] \<rparr>"

text \<open>The object \<open>routeSpec\<close> built in the body of the inner loop.\<close>

definition routeSpec :: "ControllerMetadata \<Rightarrow> RouteMetadata \<Rightarrow> Operation" where
  "routeSpec cm route =
     (let spec0 = \<lparr> op_summary = r_summary route,
                    op_description = r_description route,
                    op_tags = obj_or (c_tags cm) [] @ obj_or (r_tags route) [],
                    op_responses = obj_or (r_responses route) default_responses,
                    op_parameters = None,
                    op_requestBody = None \<rparr>
      in case r_parameters route of
           None \<Rightarrow> spec0
         | Some ps \<Rightarrow>
             if length ps > 0 then
               (let bodyParams = filter (\<lambda>p. p_in p = InBody) ps;
                    otherParams = filter (\<lambda>p. p_in p \<noteq> InBody) ps;
                    spec1 = (if length otherParams > 0
                             then spec0\<lparr> op_parameters := Some otherParams \<rparr> else spec0)
                in case bodyParams of
                     [] \<Rightarrow> spec1
                   | bodyParam # _ \<Rightarrow> spec1\<lparr> op_requestBody := Some (requestBody_of bodyParam) \<rparr>)
             else spec0)"

text \<open>
  \<open>if (!spec.paths[fullPath]) spec.paths[fullPath] = {}; spec.paths[fullPath][method] = routeSpec\<close>.
  Every key contains a slash, so it is never an inherited property name nor an
  index-like key, and the object keeps insertion order.
\<close>

definition set_operation ::
  "string \<Rightarrow> HttpMethod \<Rightarrow> Operation \<Rightarrow> (string \<times> PathItem) list \<Rightarrow> (string \<times> PathItem) list" where
  "set_operation k m op ps =
     (let ps1 = (case map_of ps k of None \<Rightarrow> ps @ [(k, [])] | Some _ \<Rightarrow> ps)
      in case map_of ps1 k of
           None \<Rightarrow> ps1
         | Some item \<Rightarrow> AList.update k (AList.update m op item) ps1)"

text \<open>
  The two \<open>forEach\<close> bodies. The store is threaded through them next to the document
  under construction: \<open>metadata.routes.get(controller)\<close> reads the live store.
\<close>

definition route_step ::
  "OpenAPIOptions \<Rightarrow> ControllerMetadata \<Rightarrow> RouteMetadata \<Rightarrow>
   OpenAPISpec \<times> MetadataStorage \<Rightarrow> OpenAPISpec \<times> MetadataStorage" where
  "route_step opts cm route acc =
     (case acc of (spec, st) \<Rightarrow>
        (spec\<lparr> paths := set_operation (fullPath opts cm route) (r_method route)
                           (routeSpec cm route) (paths spec) \<rparr>, st))"

definition controller_step ::
  "OpenAPIOptions \<Rightarrow> class_id \<times> ControllerMetadata \<Rightarrow>
   OpenAPISpec \<times> MetadataStorage \<Rightarrow> OpenAPISpec \<times> MetadataStorage" where
  "controller_step opts kc acc =
     (case acc of (spec, st) \<Rightarrow>
        (let rs = obj_or (map_of (routes (metadata st)) (fst kc)) []
         in fold (route_step opts (snd kc)) rs (spec, st)))"

definition initial_spec :: "OpenAPIOptions \<Rightarrow> OpenAPISpec" where
  "initial_spec opts =
     \<lparr> openapi = ''3.0.0'',
       info = \<lparr> i_title = o_title opts, i_version = o_version opts,
                i_description = o_description opts \<rparr>,
       servers = obj_or (o_servers opts) [\<lparr> srv_url = ''/'', srv_description = None \<rparr>],
       paths = [],
       component_schemas = [] \<rparr>"

definition generateOpenAPISpec ::
  "OpenAPIOptions \<Rightarrow> MetadataStorage \<Rightarrow> OpenAPISpec \<times> MetadataStorage" where
  "generateOpenAPISpec opts st =
     (case getMetadata st of
        (md, st1) \<Rightarrow> fold (controller_step opts) (controllers md) (initial_spec opts, st1))"

text \<open>The number of slashes a string begins with (used to state the path properties).\<close>

definition leading_slashes :: "string \<Rightarrow> nat" where
  "leading_slashes s = length (takeWhile (\<lambda>c. c = CHR ''/'') s)"

text \<open>The operations found anywhere in a \<open>paths\<close> object.\<close>

definition ops_of :: "(string \<times> PathItem) list \<Rightarrow> Operation set" where
  "ops_of ps = {op. \<exists>k item m. (k, item) \<in> set ps \<and> (m, op) \<in> set item}"

text \<open>\<open>spec.paths[path][method]\<close> of a \<open>paths\<close> object.\<close>

definition lookup_operation ::
  "(string \<times> PathItem) list \<Rightarrow> string \<Rightarrow> HttpMethod \<Rightarrow> Operation option" where
  "lookup_operation ps k m = (case map_of ps k of None \<Rightarrow> None | Some item \<Rightarrow> map_of item m)"

text \<open>Every stored route with its controller, in the order the builder visits them.\<close>

definition all_routes :: "MetadataStorage \<Rightarrow> (ControllerMetadata \<times> RouteMetadata) list" where
  "all_routes st =
     concat (map (\<lambda>kc. map (\<lambda>r. (snd kc, r)) (obj_or (map_of (routes (metadata st)) (fst kc)) []))
                 (controllers (metadata st)))"

text \<open>A route composes to the given path and has the given method.\<close>

definition writes_to ::
  "OpenAPIOptions \<Rightarrow> string \<Rightarrow> HttpMethod \<Rightarrow> ControllerMetadata \<times> RouteMetadata \<Rightarrow> bool" where
  "writes_to opts k m x = (fullPath opts (fst x) (snd x) = k \<and> r_method (snd x) = m)"

section \<open>Controller decorator (decorators.ts)\<close>

record ControllerOptions =
  co_path :: "string option"
  co_description :: "string option option"
  co_tags :: "string list option option"

definition Controller ::
  "string \<Rightarrow> ControllerOptions \<Rightarrow> class_id \<Rightarrow> MetadataStorage \<Rightarrow> MetadataStorage" where
  "Controller path copts target st =
     (let controllerPath = (if startsWith_slash path then path else CHR ''/'' # path)
      in addControllerMetadata target
           \<lparr> c_path = (case co_path copts of None \<Rightarrow> controllerPath | Some p \<Rightarrow> p),
             c_description = (case co_description copts of None \<Rightarrow> None | Some d \<Rightarrow> d),
             c_tags = (case co_tags copts of None \<Rightarrow> None | Some t \<Rightarrow> t) \<rparr> st)"

section \<open>Run-time values seen by the schema inference engine (decorators.ts)\<close>

text \<open>
  The engine receives values of type \<open>any\<close>. A value is a primitive, one of the built-in
  constructors the code compares against by identity, or a reference to a function, a plain
  object, an array or a date. \<open>Fresh n\<close> is the \<open>n\<close>-th empty object literal \<open>{}\<close> created
  by the decorators themselves. What the run time answers about a reference (its name, its
  source text, its properties, its metadata, what \<open>new\<close> does) is given by a \<open>heap\<close>.
  Property reads are plain data reads, \<open>toString\<close> is the built-in one, chars stand for
  code units below 256. A constructor called by \<open>new\<close> returns a plain object or throws, and
  leaves the heap as it is.
\<close>

type_synonym ref = nat

datatype builtin =
  B_String | B_Number | B_BigInt | B_Boolean | B_Date | B_Buffer | B_ArrayBuffer | B_Array | B_Object

datatype jsval =
    Undefined | Null
  | VBool bool | VNum int | VStr string
  | Builtin builtin
  | Fn ref
  | Obj ref
  | Arr ref
  | DateV ref
  | Fresh nat

datatype construct_result = Throws | Constructs ref

record fn_info =
  fn_name :: string
  fn_text :: string
  fn_prototype :: bool
  fn_design_properties :: "(string \<times> jsval) list"
  fn_design_type :: "(string \<times> jsval) list"
  fn_construct :: construct_result

record obj_info =
  obj_props :: "(string \<times> jsval) list"
  obj_constructor :: jsval

record heap =
  fn_of :: "ref \<Rightarrow> fn_info"
  obj_of :: "ref \<Rightarrow> obj_info"
  arr_of :: "ref \<Rightarrow> jsval list"
  arr_text :: "ref \<Rightarrow> string"
  date_text :: "ref \<Rightarrow> string"
  global_of :: "string \<Rightarrow> jsval"

datatype exn = RangeError | TypeError

type_synonym cache = "jsval \<Rightarrow> schema option"

type_synonym props = "(string \<times> schema) list"

subsection \<open>Strings\<close>

definition starts_with :: "string \<Rightarrow> string \<Rightarrow> bool" where
  "starts_with s p = (take (length p) s = p)"

fun str_includes :: "string \<Rightarrow> string \<Rightarrow> bool" where
  "str_includes [] sub = (sub = [])"
| "str_includes (c # cs) sub = (starts_with (c # cs) sub \<or> str_includes cs sub)"

definition is_ws :: "char \<Rightarrow> bool" where
  "is_ws c = (of_char c \<in> {9, 10, 11, 12, 13, 32, 160 :: nat})"

definition is_digit :: "char \<Rightarrow> bool" where
  "is_digit c = (48 \<le> (of_char c :: nat) \<and> (of_char c :: nat) \<le> 57)"

definition is_word :: "char \<Rightarrow> bool" where
  "is_word c = (let n = (of_char c :: nat) in
      (48 \<le> n \<and> n \<le> 57) \<or> (65 \<le> n \<and> n \<le> 90) \<or> (97 \<le> n \<and> n \<le> 122) \<or> n = 95)"

definition trim :: "string \<Rightarrow> string" where
  "trim s = rev (dropWhile is_ws (rev (dropWhile is_ws s)))"

fun string_of_nat :: "nat \<Rightarrow> string" where
  "string_of_nat n =
     (if n < 10 then [char_of (48 + n)]
      else string_of_nat (n div 10) @ [char_of (48 + n mod 10)])"

definition string_of_int :: "int \<Rightarrow> string" where
  "string_of_int i = (if i < 0 then CHR ''-'' # string_of_nat (nat (- i)) else string_of_nat (nat i))"

text \<open>\<open>s.match(/Array<([^>]+)>/)\<close>: the first capture of the leftmost match.\<close>

fun match_generic :: "string \<Rightarrow> string option" where
  "match_generic [] = None"
| "match_generic (c # cs) =
     (if starts_with (c # cs) ''Array<'' then
        (let rest = drop 6 (c # cs);
             cap = takeWhile (\<lambda>x. x \<noteq> CHR ''>'') rest;
             after = dropWhile (\<lambda>x. x \<noteq> CHR ''>'') rest
         in if cap \<noteq> [] \<and> after \<noteq> [] then Some cap else match_generic cs)
      else match_generic cs)"

text \<open>
  \<open>s.match(/this\.([a-zA-Z0-9_]+)\s*=/g)\<close> followed by \<open>m.match(/this\.([a-zA-Z0-9_]+)/)[1]\<close>
  on every match: the property names, left to right, matches not overlapping. The second
  argument counts the characters still covered by the previous match.
\<close>

fun scan_this :: "string \<Rightarrow> nat \<Rightarrow> string list" where
  "scan_this [] skip = []"
| "scan_this (c # cs) skip =
     (if skip > 0 then scan_this cs (skip - 1)
      else if starts_with (c # cs) ''this.'' then
        (let rest = drop 5 (c # cs);
             ident = takeWhile is_word rest;
             after = dropWhile is_word rest;
             ws = takeWhile is_ws after;
             after2 = dropWhile is_ws after
         in if ident \<noteq> [] \<and> starts_with after2 ''='' \<and> after2 \<noteq> []
            then ident # scan_this cs (5 + length ident + length ws)
            else scan_this cs 0)
      else scan_this cs 0)"

text \<open>\<open>s.match(/\(([^)]*)\)/)\<close>: the first capture of the leftmost match.\<close>

definition match_parens :: "string \<Rightarrow> string option" where
  "match_parens s =
     (case dropWhile (\<lambda>x. x \<noteq> CHR ''('') s of
        [] \<Rightarrow> None
      | _ # rest \<Rightarrow>
          if dropWhile (\<lambda>x. x \<noteq> CHR '')'') rest = [] then None
          else Some (takeWhile (\<lambda>x. x \<noteq> CHR '')'') rest))"

fun split_comma :: "string \<Rightarrow> string list" where
  "split_comma [] = [[]]"
| "split_comma (c # cs) =
     (if c = CHR '','' then [] # split_comma cs
      else (case split_comma cs of [] \<Rightarrow> [[c]] | w # ws \<Rightarrow> (c # w) # ws))"

subsection \<open>What the run time answers about a value\<close>

definition truthy :: "jsval \<Rightarrow> bool" where
  "truthy v = (case v of Undefined \<Rightarrow> False | Null \<Rightarrow> False | VBool b \<Rightarrow> b
               | VNum n \<Rightarrow> n \<noteq> 0 | VStr s \<Rightarrow> s \<noteq> [] | _ \<Rightarrow> True)"

definition builtin_name :: "builtin \<Rightarrow> string" where
  "builtin_name b = (case b of B_String \<Rightarrow> ''String'' | B_Number \<Rightarrow> ''Number''
     | B_BigInt \<Rightarrow> ''BigInt'' | B_Boolean \<Rightarrow> ''Boolean'' | B_Date \<Rightarrow> ''Date''
     | B_Buffer \<Rightarrow> ''Buffer'' | B_ArrayBuffer \<Rightarrow> ''ArrayBuffer'' | B_Array \<Rightarrow> ''Array''
     | B_Object \<Rightarrow> ''Object'')"

text \<open>\<open>type.name\<close>, when it is a string.\<close>

definition name_of :: "heap \<Rightarrow> jsval \<Rightarrow> string option" where
  "name_of h v = (case v of
       Builtin b \<Rightarrow> Some (builtin_name b)
     | Fn r \<Rightarrow> Some (fn_name (fn_of h r))
     | Obj r \<Rightarrow> (case map_of (obj_props (obj_of h r)) ''name'' of Some (VStr s) \<Rightarrow> Some s | _ \<Rightarrow> None)
     | _ \<Rightarrow> None)"

text \<open>\<open>type.toString()\<close>.\<close>

definition text_of :: "heap \<Rightarrow> jsval \<Rightarrow> string" where
  "text_of h v = (case v of
       Undefined \<Rightarrow> ''undefined'' | Null \<Rightarrow> ''null''
     | VBool b \<Rightarrow> (if b then ''true'' else ''false'')
     | VNum n \<Rightarrow> string_of_int n
     | VStr s \<Rightarrow> s
     | Builtin b \<Rightarrow> ''function '' @ builtin_name b @ ''() { [native code] }''
     | Fn r \<Rightarrow> fn_text (fn_of h r)
     | Obj r \<Rightarrow> ''[object Object]''
     | Arr r \<Rightarrow> arr_text h r
     | DateV r \<Rightarrow> date_text h r
     | Fresh n \<Rightarrow> ''[object Object]'')"

text \<open>\<open>Object.keys(obj)\<close> with the values \<open>obj[key]\<close>.\<close>

definition own_entries :: "heap \<Rightarrow> jsval \<Rightarrow> (string \<times> jsval) list" where
  "own_entries h v = (case v of
       Obj r \<Rightarrow> obj_props (obj_of h r)
     | Arr r \<Rightarrow> zip (map string_of_nat [0 ..< length (arr_of h r)]) (arr_of h r)
     | _ \<Rightarrow> [])"

text \<open>\<open>value.constructor\<close> of an object.\<close>

definition constructor_of :: "heap \<Rightarrow> jsval \<Rightarrow> jsval" where
  "constructor_of h v = (case v of Obj r \<Rightarrow> obj_constructor (obj_of h r)
                                  | Fresh n \<Rightarrow> Builtin B_Object | _ \<Rightarrow> Undefined)"

definition is_function :: "jsval \<Rightarrow> bool" where
  "is_function v = (case v of Builtin _ \<Rightarrow> True | Fn _ \<Rightarrow> True | _ \<Rightarrow> False)"

subsection \<open>The engine\<close>

definition isArrayType :: "heap \<Rightarrow> jsval \<Rightarrow> bool" where
  "isArrayType h type =
     (type = Builtin B_Array \<or>
      (truthy type \<and> name_of h type = Some ''Array'') \<or>
      (truthy type \<and> str_includes (text_of h type) ''Array''))"

text \<open>
  \<open>properties[key] = f(value)\<close> for every entry in turn, threading the cache. The
  properties assigned before an exception stay assigned.
\<close>

text \<open>
  \<open>properties[key] = schema\<close> on an object created by \<open>{}\<close>: assigning to \<open>__proto__\<close>
  sets no own property.
\<close>

definition assign_prop :: "string \<Rightarrow> schema \<Rightarrow> props \<Rightarrow> props" where
  "assign_prop key schema ps = (if key = ''__proto__'' then ps else AList.update key schema ps)"

fun assign_each ::
  "(jsval \<Rightarrow> cache \<Rightarrow> (exn + schema) \<times> cache) \<Rightarrow> (string \<times> jsval) list \<Rightarrow> props \<Rightarrow> cache
   \<Rightarrow> exn option \<times> props \<times> cache" where
  "assign_each f [] ps c = (None, ps, c)"
| "assign_each f (kv # kvs) ps c =
     (case f (snd kv) c of
        (Inl e, c') \<Rightarrow> (Some e, ps, c')
      | (Inr s, c') \<Rightarrow> assign_each f kvs (assign_prop (fst kv) s ps) c')"

definition tryExtractPropertiesFromConstructorSource :: "heap \<Rightarrow> ref \<Rightarrow> props \<Rightarrow> props" where
  "tryExtractPropertiesFromConstructorSource h r ps =
     fold (\<lambda>propName acc. assign_prop propName object_schema acc)
          (scan_this (fn_text (fn_of h r)) 0) ps"

definition inferPropertiesFromTypeName :: "string \<Rightarrow> props \<Rightarrow> props" where
  "inferPropertiesFromTypeName typeName ps = ps"

definition tryExtractPropertiesFromFunction :: "heap \<Rightarrow> ref \<Rightarrow> props \<Rightarrow> props" where
  "tryExtractPropertiesFromFunction h r ps =
     (let funcString = fn_text (fn_of h r);
          ps1 = (case match_parens funcString of
                   None \<Rightarrow> ps
                 | Some cap \<Rightarrow>
                     if cap = [] then ps
                     else fold (\<lambda>param acc.
                                  if param \<noteq> [] \<and> \<not> str_includes param ''=''
                                  then assign_prop param object_schema acc else acc)
                               (map trim (split_comma cap)) ps)
      in inferPropertiesFromTypeName (fn_name (fn_of h r)) ps1)"

text \<open>
  The inference functions call each other recursively. They are defined by levels: the
  functions of level \<open>d\<close> can be entered while the call stack admits \<open>d\<close> more nested calls
  and call the functions of level \<open>d - 1\<close>. A call that does not fit raises \<open>RangeError\<close>
  at the call site, where an enclosing \<open>try\<close> catches it like any other exception. The
  cache is a mutable \<open>Map\<close>: what was written before an exception stays written.
  The helpers above make no call back into the engine and are not counted.
\<close>

type_synonym 'a res = "(exn + 'a) \<times> cache"

record engine =
  e_getTypeSchema :: "jsval \<Rightarrow> cache \<Rightarrow> schema res"
  e_processArrayType :: "jsval \<Rightarrow> cache \<Rightarrow> schema res"
  e_inferTypeFromName :: "string \<Rightarrow> cache \<Rightarrow> schema res"
  e_processFunctionType :: "ref \<Rightarrow> cache \<Rightarrow> schema res"
  e_tryExtractMetadataProperties :: "ref \<Rightarrow> props \<Rightarrow> cache \<Rightarrow> props res"
  e_tryInstantiateAndExtractProperties :: "ref \<Rightarrow> props \<Rightarrow> cache \<Rightarrow> props res"
  e_processObjectInstance :: "jsval \<Rightarrow> cache \<Rightarrow> schema res"
  e_inferSchemaFromValue :: "jsval \<Rightarrow> cache \<Rightarrow> schema res"
  e_processArrayValue :: "ref \<Rightarrow> cache \<Rightarrow> schema res"

definition getTypeSchema_body :: "heap \<Rightarrow> engine \<Rightarrow> jsval \<Rightarrow> cache \<Rightarrow> schema res" where
  "getTypeSchema_body h e type c =
     (case c type of
        Some cached \<Rightarrow> (Inr cached, c)
      | None \<Rightarrow>
          (let c1 = c(type \<mapsto> object_schema) in
           if \<not> truthy type then (Inr object_schema, c1)
           else
             (case
                (if type = Builtin B_String then (Inr string_schema, c1)
                 else if type = Builtin B_Number \<or> type = Builtin B_BigInt then (Inr number_schema, c1)
                 else if type = Builtin B_Boolean then (Inr boolean_schema, c1)
                 else if type = Builtin B_Date then (Inr date_time_schema, c1)
                 else if type = Builtin B_Buffer \<or> type = Builtin B_ArrayBuffer then (Inr binary_schema, c1)
                 else if isArrayType h type then e_processArrayType e type c1
                 else if type = Builtin B_Object then (Inr object_schema, c1)
                 else (case type of
                         Fn r \<Rightarrow> e_processFunctionType e r c1
                       | Obj r \<Rightarrow> e_processObjectInstance e type c1
                       | Arr r \<Rightarrow> e_processObjectInstance e type c1
                       | DateV r \<Rightarrow> e_processObjectInstance e type c1
                       | Fresh n \<Rightarrow> e_processObjectInstance e type c1
                       | _ \<Rightarrow> (Inr object_schema, c1)))
              of (Inl err, c2) \<Rightarrow> (Inl err, c2)
               | (Inr schema, c2) \<Rightarrow> (Inr schema, c2(type \<mapsto> schema)))))"

definition processArrayType_body :: "heap \<Rightarrow> engine \<Rightarrow> jsval \<Rightarrow> cache \<Rightarrow> schema res" where
  "processArrayType_body h e type c =
     (case (if truthy type then match_generic (text_of h type) else None) of
        None \<Rightarrow> (Inr (array_schema object_schema), c)
      | Some cap \<Rightarrow>
          (case e_inferTypeFromName e (trim cap) c of
             (Inl err, c') \<Rightarrow> (Inl err, c')
           | (Inr itemType, c') \<Rightarrow> (Inr (array_schema itemType), c')))"

definition inferTypeFromName_body :: "heap \<Rightarrow> engine \<Rightarrow> string \<Rightarrow> cache \<Rightarrow> schema res" where
  "inferTypeFromName_body h e typeName c =
     (if typeName = ''string'' \<or> typeName = ''String'' then (Inr string_schema, c)
      else if typeName = ''number'' \<or> typeName = ''Number'' then (Inr number_schema, c)
      else if typeName = ''boolean'' \<or> typeName = ''Boolean'' then (Inr boolean_schema, c)
      else if typeName = ''Date'' then (Inr date_time_schema, c)
      else
        (let globalType = global_of h typeName in
         if truthy globalType \<and> is_function globalType then
           (case e_getTypeSchema e globalType c of
              (Inl err, c') \<Rightarrow> (Inr object_schema, c')
            | (Inr schema, c') \<Rightarrow> (Inr schema, c'))
         else (Inr object_schema, c)))"

definition processFunctionType_body :: "heap \<Rightarrow> engine \<Rightarrow> ref \<Rightarrow> cache \<Rightarrow> schema res" where
  "processFunctionType_body h e r c =
     (case
        (if fn_prototype (fn_of h r) then
           (case e_tryExtractMetadataProperties e r [] c of
              (Inl err, c1) \<Rightarrow> (Inl err, c1)
            | (Inr ps1, c1) \<Rightarrow>
                if length ps1 = 0 then e_tryInstantiateAndExtractProperties e r ps1 c1
                else (Inr ps1, c1))
         else (Inr (tryExtractPropertiesFromFunction h r []), c))
      of (Inl err, c2) \<Rightarrow> (Inl err, c2)
       | (Inr properties, c2) \<Rightarrow>
           if length properties > 0
           then (Inr (Schema ''object'' None None None (Some properties)), c2)
           else (Inr (Schema ''object'' None
                        (Some (''Schema for type '' @
                               (if fn_name (fn_of h r) = [] then ''Unknown'' else fn_name (fn_of h r))))
                        None None), c2))"

definition tryExtractMetadataProperties_body ::
  "heap \<Rightarrow> engine \<Rightarrow> ref \<Rightarrow> props \<Rightarrow> cache \<Rightarrow> props res" where
  "tryExtractMetadataProperties_body h e r ps c =
     (case assign_each (e_getTypeSchema e) (fn_design_properties (fn_of h r)) ps c of
        (Some err, ps1, c1) \<Rightarrow> (Inr ps1, c1)
      | (None, ps1, c1) \<Rightarrow>
          (case assign_each (e_getTypeSchema e) (fn_design_type (fn_of h r)) ps1 c1 of
             (_, ps2, c2) \<Rightarrow> (Inr ps2, c2)))"

definition tryInstantiateAndExtractProperties_body ::
  "heap \<Rightarrow> engine \<Rightarrow> ref \<Rightarrow> props \<Rightarrow> cache \<Rightarrow> props res" where
  "tryInstantiateAndExtractProperties_body h e r ps c =
     (case fn_construct (fn_of h r) of
        Throws \<Rightarrow> (Inr (tryExtractPropertiesFromConstructorSource h r ps), c)
      | Constructs inst \<Rightarrow>
          (case assign_each (e_inferSchemaFromValue e)
                  (filter (\<lambda>kv. fst kv \<noteq> ''constructor'' \<and> \<not> starts_with (fst kv) ''_'')
                          (obj_props (obj_of h inst))) ps c of
             (Some err, ps1, c1) \<Rightarrow> (Inr (tryExtractPropertiesFromConstructorSource h r ps1), c1)
           | (None, ps1, c1) \<Rightarrow> (Inr ps1, c1)))"

definition processObjectInstance_body :: "heap \<Rightarrow> engine \<Rightarrow> jsval \<Rightarrow> cache \<Rightarrow> schema res" where
  "processObjectInstance_body h e obj c =
     (case assign_each (e_inferSchemaFromValue e) (own_entries h obj) [] c of
        (Some err, ps1, c1) \<Rightarrow> (Inl err, c1)
      | (None, ps1, c1) \<Rightarrow> (Inr (Schema ''object'' None None None (Some ps1)), c1))"

definition inferSchemaFromValue_body :: "heap \<Rightarrow> engine \<Rightarrow> jsval \<Rightarrow> cache \<Rightarrow> schema res" where
  "inferSchemaFromValue_body h e v c =
     (case v of
        Undefined \<Rightarrow> (Inr object_schema, c)
      | Null \<Rightarrow> (Inr object_schema, c)
      | VStr s \<Rightarrow> (Inr string_schema, c)
      | VNum n \<Rightarrow> (Inr number_schema, c)
      | VBool b \<Rightarrow> (Inr boolean_schema, c)
      | DateV r \<Rightarrow> (Inr date_time_schema, c)
      | Arr r \<Rightarrow> e_processArrayValue e r c
      | Obj r \<Rightarrow> e_getTypeSchema e (constructor_of h v) c
      | Fresh n \<Rightarrow> e_getTypeSchema e (constructor_of h v) c
      | Builtin b \<Rightarrow> (Inr object_schema, c)
      | Fn r \<Rightarrow> (Inr object_schema, c))"

definition processArrayValue_body :: "heap \<Rightarrow> engine \<Rightarrow> ref \<Rightarrow> cache \<Rightarrow> schema res" where
  "processArrayValue_body h e r c =
     (case arr_of h r of
        [] \<Rightarrow> (Inr (array_schema object_schema), c)
      | firstItem # _ \<Rightarrow>
          if firstItem \<noteq> Undefined then
            (case e_inferSchemaFromValue e firstItem c of
               (Inl err, c') \<Rightarrow> (Inl err, c')
             | (Inr itemType, c') \<Rightarrow> (Inr (array_schema itemType), c'))
          else (Inr (array_schema object_schema), c))"

definition stack_exhausted :: engine where
  "stack_exhausted =
     \<lparr> e_getTypeSchema = (\<lambda>_ c. (Inl RangeError, c)),
       e_processArrayType = (\<lambda>_ c. (Inl RangeError, c)),
       e_inferTypeFromName = (\<lambda>_ c. (Inl RangeError, c)),
       e_processFunctionType = (\<lambda>_ c. (Inl RangeError, c)),
       e_tryExtractMetadataProperties = (\<lambda>_ _ c. (Inl RangeError, c)),
       e_tryInstantiateAndExtractProperties = (\<lambda>_ _ c. (Inl RangeError, c)),
       e_processObjectInstance = (\<lambda>_ c. (Inl RangeError, c)),
       e_inferSchemaFromValue = (\<lambda>_ c. (Inl RangeError, c)),
       e_processArrayValue = (\<lambda>_ c. (Inl RangeError, c)) \<rparr>"

primrec engine_at :: "nat \<Rightarrow> heap \<Rightarrow> engine" where
  "engine_at 0 h = stack_exhausted"
| "engine_at (Suc d) h =
     (let e = engine_at d h in
      \<lparr> e_getTypeSchema = getTypeSchema_body h e,
        e_processArrayType = processArrayType_body h e,
        e_inferTypeFromName = inferTypeFromName_body h e,
        e_processFunctionType = processFunctionType_body h e,
        e_tryExtractMetadataProperties = tryExtractMetadataProperties_body h e,
        e_tryInstantiateAndExtractProperties = tryInstantiateAndExtractProperties_body h e,
        e_processObjectInstance = processObjectInstance_body h e,
        e_inferSchemaFromValue = inferSchemaFromValue_body h e,
        e_processArrayValue = processArrayValue_body h e \<rparr>)"

definition getTypeSchema :: "nat \<Rightarrow> heap \<Rightarrow> jsval \<Rightarrow> cache \<Rightarrow> schema res" where
  "getTypeSchema d h = e_getTypeSchema (engine_at d h)"

definition inferSchemaFromValue :: "nat \<Rightarrow> heap \<Rightarrow> jsval \<Rightarrow> cache \<Rightarrow> schema res" where
  "inferSchemaFromValue d h = e_inferSchemaFromValue (engine_at d h)"

definition processArrayValue :: "nat \<Rightarrow> heap \<Rightarrow> ref \<Rightarrow> cache \<Rightarrow> schema res" where
  "processArrayValue d h = e_processArrayValue (engine_at d h)"

definition processObjectInstance :: "nat \<Rightarrow> heap \<Rightarrow> jsval \<Rightarrow> cache \<Rightarrow> schema res" where
  "processObjectInstance d h = e_processObjectInstance (engine_at d h)"

definition processFunctionType :: "nat \<Rightarrow> heap \<Rightarrow> ref \<Rightarrow> cache \<Rightarrow> schema res" where
  "processFunctionType d h = e_processFunctionType (engine_at d h)"

definition processArrayType :: "nat \<Rightarrow> heap \<Rightarrow> jsval \<Rightarrow> cache \<Rightarrow> schema res" where
  "processArrayType d h = e_processArrayType (engine_at d h)"

definition inferTypeFromName :: "nat \<Rightarrow> heap \<Rightarrow> string \<Rightarrow> cache \<Rightarrow> schema res" where
  "inferTypeFromName d h = e_inferTypeFromName (engine_at d h)"

definition tryExtractMetadataProperties :: "nat \<Rightarrow> heap \<Rightarrow> ref \<Rightarrow> props \<Rightarrow> cache \<Rightarrow> props res" where
  "tryExtractMetadataProperties d h = e_tryExtractMetadataProperties (engine_at d h)"

definition tryInstantiateAndExtractProperties ::
  "nat \<Rightarrow> heap \<Rightarrow> ref \<Rightarrow> props \<Rightarrow> cache \<Rightarrow> props res" where
  "tryInstantiateAndExtractProperties d h = e_tryInstantiateAndExtractProperties (engine_at d h)"

definition empty_cache :: cache where
  "empty_cache = (\<lambda>_. None)"

text \<open>
  The conditions under which the engine takes the array branch for a descriptor, and under
  which \<open>processArrayType\<close> recovers no element type: the source text has no
  \<open>Array<...>\<close> part, or the name found there is neither a primitive name nor the name of a
  global function.
\<close>

definition fast_path_builtins :: "builtin set" where
  "fast_path_builtins = {B_String, B_Number, B_BigInt, B_Boolean, B_Date, B_Buffer, B_ArrayBuffer}"

definition array_typed :: "heap \<Rightarrow> jsval \<Rightarrow> bool" where
  "array_typed h t = (truthy t \<and> t \<notin> Builtin ` fast_path_builtins \<and> isArrayType h t)"

definition element_type_unrecoverable :: "heap \<Rightarrow> jsval \<Rightarrow> bool" where
  "element_type_unrecoverable h t =
     (case match_generic (text_of h t) of
        None \<Rightarrow> True
      | Some cap \<Rightarrow>
          trim cap \<notin> {''string'', ''String'', ''number'', ''Number'', ''boolean'', ''Boolean'', ''Date''}
          \<and> \<not> (truthy (global_of h (trim cap)) \<and> is_function (global_of h (trim cap))))"

text \<open>
  What every cache the engine can build keeps true: the entries of \<open>String\<close> and \<open>Date\<close>, once
  there, are their schemas. A cache is reachable when it comes from the empty one by calls of
  \<open>getTypeSchema\<close>, the only function the decorators call.
\<close>

definition cache_keeps_primitives :: "cache \<Rightarrow> bool" where
  "cache_keeps_primitives c =
     ((c (Builtin B_String) = None \<or> c (Builtin B_String) = Some string_schema) \<and>
      (c (Builtin B_Date) = None \<or> c (Builtin B_Date) = Some date_time_schema))"

definition preserves :: "(cache \<Rightarrow> 'a \<times> cache) \<Rightarrow> bool" where
  "preserves f = (\<forall>c. cache_keeps_primitives c \<longrightarrow> cache_keeps_primitives (snd (f c)))"

definition engine_preserves :: "engine \<Rightarrow> bool" where
  "engine_preserves e =
     ((\<forall>t. preserves (e_getTypeSchema e t)) \<and>
      (\<forall>t. preserves (e_processArrayType e t)) \<and>
      (\<forall>n. preserves (e_inferTypeFromName e n)) \<and>
      (\<forall>r. preserves (e_processFunctionType e r)) \<and>
      (\<forall>r ps. preserves (e_tryExtractMetadataProperties e r ps)) \<and>
      (\<forall>r ps. preserves (e_tryInstantiateAndExtractProperties e r ps)) \<and>
      (\<forall>t. preserves (e_processObjectInstance e t)) \<and>
      (\<forall>v. preserves (e_inferSchemaFromValue e v)) \<and>
      (\<forall>r. preserves (e_processArrayValue e r)))"

inductive reachable_cache :: "heap \<Rightarrow> cache \<Rightarrow> bool" for h :: heap where
  initial: "reachable_cache h empty_cache"
| call: "reachable_cache h c \<Longrightarrow> reachable_cache h (snd (getTypeSchema d h t c))"

section \<open>Parameter and method decorators (decorators.ts)\<close>

text \<open>
  What reflection answers for one decorated method: \<open>design:paramtypes\<close> (or \<open>[]\<close>),
  \<open>design:returntype\<close>, the source text \<open>descriptor.value.toString()\<close> and the own
  metadata \<open>openapi:responses\<close> (or \<open>{}\<close>), which nothing in this repository writes.
\<close>

record method_decl =
  m_paramTypes :: "jsval list"
  m_returnType :: jsval
  m_impl :: string
  m_pendingResponses :: ResponseMetadata

text \<open>
  The state the decorators work on: the schema cache, the metadata store, the own metadata
  \<open>custom:parameters\<close> per class and method, and the number of object literals \<open>{}\<close>
  handed to the engine so far.
\<close>

record deco_state =
  ds_cache :: cache
  ds_store :: MetadataStorage
  ds_parameters :: "((class_id \<times> string) \<times> ParameterMetadata list) list"
  ds_fresh :: nat

definition initial_state :: deco_state where
  "initial_state =
     \<lparr> ds_cache = empty_cache, ds_store = new_MetadataStorage, ds_parameters = [], ds_fresh = 0 \<rparr>"

record BodyOptions =
  bo_description :: "string option"
  bo_required :: "bool option"

definition Body ::
  "nat \<Rightarrow> heap \<Rightarrow> BodyOptions \<Rightarrow> method_decl \<Rightarrow> class_id \<Rightarrow> string \<Rightarrow> nat \<Rightarrow> deco_state
   \<Rightarrow> (exn + unit) \<times> deco_state" where
  "Body d h bopts decl target propertyKey parameterIndex s =
     (let existingParameters = obj_or (map_of (ds_parameters s) (target, propertyKey)) [];
          paramTypes = m_paramTypes decl;
          paramType = (if parameterIndex < length paramTypes then paramTypes ! parameterIndex
                       else Undefined)
      in case getTypeSchema d h paramType (ds_cache s) of
           (Inl err, c') \<Rightarrow> (Inl err, s\<lparr> ds_cache := c' \<rparr>)
         | (Inr schema, c') \<Rightarrow>
             (let paramMetadata =
                    \<lparr> p_name = ''body'', p_in = InBody,
                      p_required = Some (bo_required bopts \<noteq> Some False),
                      p_type = ''object'',
                      p_description = Some (str_or (bo_description bopts) ''Request body''),
                      p_schema = Some schema \<rparr>
              in (Inr (), s\<lparr> ds_cache := c',
                             ds_parameters := AList.update (target, propertyKey)
                               (existingParameters @ [paramMetadata]) (ds_parameters s) \<rparr>)))"

text \<open>\<open>s.match(/return\s+([^;]+)/)\<close>: the first capture of the leftmost match.\<close>

fun match_return :: "string \<Rightarrow> string option" where
  "match_return [] = None"
| "match_return (c # cs) =
     (if starts_with (c # cs) ''return'' then
        (let rest = drop 6 (c # cs);
             ws = takeWhile is_ws rest;
             after = dropWhile is_ws rest;
             cap = takeWhile (\<lambda>x. x \<noteq> CHR '';'') after
         in if ws = [] then match_return cs
            else if cap \<noteq> [] then Some cap
            else if length ws \<ge> 2 then Some [last ws]
            else match_return cs)
      else match_return cs)"

text \<open>\<open>s.match(/param\d+/)\<close> is truthy.\<close>

fun matches_param_digit :: "string \<Rightarrow> bool" where
  "matches_param_digit [] = False"
| "matches_param_digit (c # cs) =
     ((starts_with (c # cs) ''param'' \<and>
       (case drop 5 (c # cs) of [] \<Rightarrow> False | x # _ \<Rightarrow> is_digit x))
      \<or> matches_param_digit cs)"

definition nat_of_digits :: "string \<Rightarrow> nat" where
  "nat_of_digits ds = foldl (\<lambda>acc ch. 10 * acc + (of_char ch - 48)) 0 ds"

text \<open>\<open>getTypeSchema({})\<close>: the engine is handed a new empty object.\<close>

definition getTypeSchema_fresh :: "nat \<Rightarrow> heap \<Rightarrow> cache \<times> nat \<Rightarrow> (exn + schema) \<times> cache \<times> nat" where
  "getTypeSchema_fresh d h cn =
     (case getTypeSchema d h (Fresh (snd cn)) (fst cn) of (r, c') \<Rightarrow> (r, c', Suc (snd cn)))"

definition getTypeSchema_st :: "nat \<Rightarrow> heap \<Rightarrow> jsval \<Rightarrow> cache \<times> nat \<Rightarrow> (exn + schema) \<times> cache \<times> nat" where
  "getTypeSchema_st d h type cn =
     (case getTypeSchema d h type (fst cn) of (r, c') \<Rightarrow> (r, c', snd cn))"

text \<open>\<open>try { body } catch (e) { handler }\<close> on the cache and the literal counter.\<close>

definition try_catch ::
  "((exn + schema) \<times> cache \<times> nat) \<Rightarrow> (cache \<times> nat \<Rightarrow> (exn + schema) \<times> cache \<times> nat)
   \<Rightarrow> (exn + schema) \<times> cache \<times> nat" where
  "try_catch body handler =
     (case body of (Inl err, cn) \<Rightarrow> handler cn | (Inr v, cn) \<Rightarrow> (Inr v, cn))"

definition wrap_array :: "(exn + schema) \<times> cache \<times> nat \<Rightarrow> (exn + schema) \<times> cache \<times> nat" where
  "wrap_array r = (case r of (Inl err, cn) \<Rightarrow> (Inl err, cn)
                           | (Inr items, cn) \<Rightarrow> (Inr (array_schema items), cn))"

text \<open>The schema of the default success response (the block guarded by \<open>!hasSuccessResponse && returnType\<close>).\<close>

definition response_schema ::
  "nat \<Rightarrow> heap \<Rightarrow> method_decl \<Rightarrow> ParameterMetadata list \<Rightarrow> cache \<times> nat
   \<Rightarrow> (exn + schema) \<times> cache \<times> nat" where
  "response_schema d h decl parameters cn =
     (let returnType = m_returnType decl; paramTypes = m_paramTypes decl in
      if isArrayType h returnType then
        (let typeString = text_of h returnType in
         if str_includes typeString ''Array<'' \<or> str_includes typeString ''[]'' then
           try_catch
             (case match_return (m_impl decl) of
                Some cap \<Rightarrow>
                  (let returnStmt = trim cap in
                   if starts_with returnStmt ''['' \<or> str_includes returnStmt ''.map''
                      \<or> str_includes returnStmt ''.filter''
                   then (Inr (array_schema object_schema), cn)
                   else
                     (let digits = filter is_digit returnStmt in
                      if str_includes returnStmt ''param'' \<and> digits \<noteq> []
                         \<and> nat_of_digits digits < length paramTypes
                      then wrap_array (getTypeSchema_st d h (paramTypes ! nat_of_digits digits) cn)
                      else wrap_array (getTypeSchema_fresh d h cn)))
              | None \<Rightarrow> wrap_array (getTypeSchema_fresh d h cn))
             (\<lambda>cn'. wrap_array (getTypeSchema_fresh d h cn'))
         else (Inr (array_schema object_schema), cn))
      else
        try_catch
          (case match_return (m_impl decl) of
             Some cap \<Rightarrow>
               (let returnStmt = trim cap in
                if str_includes returnStmt ''requestBody'' \<or> matches_param_digit returnStmt
                   \<or> (\<exists>p \<in> set parameters. str_includes returnStmt (p_name p))
                then
                  (case find (\<lambda>p. p_in p = InBody) parameters of
                     None \<Rightarrow> getTypeSchema_st d h returnType cn
                   | Some bp \<Rightarrow>
                       (case p_schema bp of
                          None \<Rightarrow> getTypeSchema_st d h returnType cn
                        | Some paramSchema \<Rightarrow> (Inr paramSchema, cn)))
                else getTypeSchema_st d h returnType cn)
           | None \<Rightarrow> getTypeSchema_st d h returnType cn)
          (\<lambda>cn'. getTypeSchema_st d h returnType cn'))"

text \<open>
  The options object spread last into the stored route. For an optional field of
  \<open>RouteMetadata\<close> the outer \<open>None\<close> is an absent key and \<open>Some None\<close> a key holding
  \<open>undefined\<close>.
\<close>

record RouteOptions =
  ro_path :: "string option"
  ro_method :: "HttpMethod option"
  ro_handlerName :: "string option"
  ro_description :: "string option option"
  ro_summary :: "string option option"
  ro_tags :: "string list option option"
  ro_parameters :: "ParameterMetadata list option option"
  ro_responses :: "ResponseMetadata option option"

definition no_route_options :: RouteOptions where
  "no_route_options =
     \<lparr> ro_path = None, ro_method = None, ro_handlerName = None, ro_description = None,
       ro_summary = None, ro_tags = None, ro_parameters = None, ro_responses = None \<rparr>"

definition spread :: "'a option \<Rightarrow> 'a \<Rightarrow> 'a" where
  "spread override v = (case override of None \<Rightarrow> v | Some w \<Rightarrow> w)"

definition has_response :: "ResponseMetadata \<Rightarrow> string \<Rightarrow> bool" where
  "has_response responses code = (map_of responses code \<noteq> None)"

text \<open>
  The backward-compatible default: without decorated parameters, a POST, PUT or PATCH
  handler with parameter types gets a body parameter of its first parameter type.
\<close>

definition default_body_parameter ::
  "HttpMethod \<Rightarrow> nat \<Rightarrow> heap \<Rightarrow> method_decl \<Rightarrow> ParameterMetadata list \<Rightarrow> cache
   \<Rightarrow> (exn + ParameterMetadata list) \<times> cache" where
  "default_body_parameter method d h decl decoratedParameters c =
     (let paramTypes = m_paramTypes decl in
      if length decoratedParameters = 0
         \<and> (method = POST \<or> method = PUT \<or> method = PATCH)
         \<and> length paramTypes > 0
      then (case getTypeSchema d h (paramTypes ! 0) c of
              (Inl err, c1) \<Rightarrow> (Inl err, c1)
            | (Inr schema, c1) \<Rightarrow>
                (Inr (decoratedParameters @
                      [\<lparr> p_name = ''body'', p_in = InBody, p_required = Some True,
                         p_type = ''object'', p_description = Some ''Request body'',
                         p_schema = Some schema \<rparr>]), c1))
      else (Inr decoratedParameters, c))"

text \<open>The responses of the route: the pending ones, plus the default success response.\<close>

definition route_responses ::
  "HttpMethod \<Rightarrow> nat \<Rightarrow> heap \<Rightarrow> method_decl \<Rightarrow> ParameterMetadata list \<Rightarrow> cache \<times> nat
   \<Rightarrow> (exn + ResponseMetadata) \<times> cache \<times> nat" where
  "route_responses method d h decl parameters cn =
     (let responses = m_pendingResponses decl;
          returnType = m_returnType decl;
          hasSuccessResponse = (has_response responses ''200'' \<or> has_response responses ''201''
              \<or> (if method = POST then has_response responses ''201''
                  else has_response responses ''200''))
      in
      if \<not> hasSuccessResponse \<and> truthy returnType then
        (case response_schema d h decl parameters cn of
           (Inl err, cn2) \<Rightarrow> (Inl err, cn2)
         | (Inr schema, cn2) \<Rightarrow>
             (let successCode = (if method = POST then ''201'' else ''200'')
              in (Inr (AList.update successCode
                         \<lparr> resp_description = (if method = POST then ''Created successfully''
                                               else ''Successful response''),
                           resp_content = Some [(''application/json'', schema)] \<rparr>
                         responses), cn2)))
      else (Inr responses, cn))"

text \<open>The object handed to \<open>addRouteMetadata\<close>, the options spread last.\<close>

definition route_record ::
  "HttpMethod \<Rightarrow> string \<Rightarrow> RouteOptions \<Rightarrow> string \<Rightarrow> ParameterMetadata list
   \<Rightarrow> ResponseMetadata \<Rightarrow> RouteMetadata" where
  "route_record method path ropts propertyKey parameters responses =
     \<lparr> r_path = spread (ro_path ropts)
                  (if path = ''/'' then ''/''
                   else if startsWith_slash path then path else CHR ''/'' # path),
       r_method = spread (ro_method ropts) method,
       r_handlerName = spread (ro_handlerName ropts) propertyKey,
       r_description = spread (ro_description ropts) None,
       r_summary = spread (ro_summary ropts) None,
       r_tags = spread (ro_tags ropts) None,
       r_parameters = spread (ro_parameters ropts) (Some parameters),
       r_responses = spread (ro_responses ropts) (Some responses) \<rparr>"

definition createMethodDecorator ::
  "HttpMethod \<Rightarrow> nat \<Rightarrow> heap \<Rightarrow> string option \<Rightarrow> RouteOptions \<Rightarrow> method_decl \<Rightarrow> class_id
   \<Rightarrow> string \<Rightarrow> deco_state \<Rightarrow> (exn + unit) \<times> deco_state" where
  "createMethodDecorator method d h path_arg ropts decl target propertyKey s =
     (let path = obj_or path_arg ''/'';
          decoratedParameters = obj_or (map_of (ds_parameters s) (target, propertyKey)) []
      in
      case default_body_parameter method d h decl decoratedParameters (ds_cache s) of
        (Inl err, c1) \<Rightarrow> (Inl err, s\<lparr> ds_cache := c1 \<rparr>)
      | (Inr parameters, c1) \<Rightarrow>
          (case route_responses method d h decl parameters (c1, ds_fresh s) of
             (Inl err, c2, n2) \<Rightarrow> (Inl err, s\<lparr> ds_cache := c2, ds_fresh := n2 \<rparr>)
           | (Inr responses, c2, n2) \<Rightarrow>
               (Inr (), s\<lparr> ds_cache := c2, ds_fresh := n2,
                    ds_store := addRouteMetadata target
                      (route_record method path ropts propertyKey parameters responses)
                      (ds_store s) \<rparr>)))"

definition Get where "Get = createMethodDecorator GET"
definition Post where "Post = createMethodDecorator POST"
definition Put where "Put = createMethodDecorator PUT"
definition Delete where "Delete = createMethodDecorator DELETE"
definition Patch where "Patch = createMethodDecorator PATCH"

text \<open>The class decorator, on the decorator state.\<close>

definition Controller_st :: "string \<Rightarrow> ControllerOptions \<Rightarrow> class_id \<Rightarrow> deco_state \<Rightarrow> deco_state" where
  "Controller_st path copts target s = s\<lparr> ds_store := Controller path copts target (ds_store s) \<rparr>"

section \<open>Route binder (register.ts)\<close>

text \<open>
  \<open>controllerInstance[route.handlerName](req, res)\<close> either throws a value or returns one,
  and what it returns is an ordinary value or a deferred value, which fulfils with a value,
  rejects with one or never settles. Of a thrown or rejected value the binder reads only
  \<open>message\<close>: \<open>undefined\<close> and \<open>null\<close> have no properties to read, of any other value
  \<open>WithMessage m\<close> gives what \<open>message\<close> evaluates to (\<open>Undefined\<close> when there is none). A
  controller instance gives the outcome of each handler by name and request.
\<close>

datatype thrown = ThrownUndefined | ThrownNull | WithMessage jsval

datatype deferred = FulfilsWith jsval | RejectsWith thrown | NeverSettles

datatype invocation = ThrowsValue thrown | ReturnsValue jsval | ReturnsDeferred deferred

type_synonym 'req controller_instance = "string \<Rightarrow> 'req \<Rightarrow> invocation"

text \<open>
  \<open>await Promise.resolve(x)\<close> inside the \<open>try\<close> block: the value the block goes on with, the
  value that enters the \<open>catch\<close> block, or no continuation at all.
\<close>

datatype awaited = Value jsval | Caught thrown | Suspended

definition await_resolve :: "invocation \<Rightarrow> awaited" where
  "await_resolve call =
     (case call of
        ThrowsValue err \<Rightarrow> Caught err
      | ReturnsValue v \<Rightarrow> Value v
      | ReturnsDeferred p \<Rightarrow>
          (case p of FulfilsWith v \<Rightarrow> Value v | RejectsWith err \<Rightarrow> Caught err
                   | NeverSettles \<Rightarrow> Suspended))"

text \<open>
  The calls made on the response object, in order, and how the asynchronous wrapper ends.
  The calls are recorded, not carried out.
\<close>

datatype response_call = Status nat | Send jsval

datatype settled = Fulfilled | Rejected exn | Unsettled

text \<open>
  \<open>const error = err as Error; res.status(500).send(error.message || 'Internal Server Error')\<close>:
  \<open>res.status(500)\<close> is called before the argument of \<open>send\<close> is evaluated.
\<close>

definition catch_block :: "thrown \<Rightarrow> response_call list \<times> settled" where
  "catch_block err =
     (case err of
        ThrownUndefined \<Rightarrow> ([Status 500], Rejected TypeError)
      | ThrownNull \<Rightarrow> ([Status 500], Rejected TypeError)
      | WithMessage message \<Rightarrow>
          ([Status 500,
            Send (if truthy message then message else VStr ''Internal Server Error'')], Fulfilled))"

text \<open>The function registered with \<open>router[route.method](routePath, async (req, res) => ...)\<close>.\<close>

definition route_wrapper ::
  "'req controller_instance \<Rightarrow> string \<Rightarrow> 'req \<Rightarrow> response_call list \<times> settled" where
  "route_wrapper controllerInstance handlerName req =
     (case await_resolve (controllerInstance handlerName req) of
        Value result \<Rightarrow> (if result \<noteq> Undefined then ([Send result], Fulfilled) else ([], Fulfilled))
      | Caught err \<Rightarrow> catch_block err
      | Suspended \<Rightarrow> ([], Unsettled))"

record 'req Registration =
  reg_mount :: string
  reg_method :: HttpMethod
  reg_path :: string
  reg_handler :: "'req \<Rightarrow> response_call list \<times> settled"

text \<open>
  What \<open>registerControllers\<close> binds for one controller class: one wrapper for each stored
  route, on a router mounted at the composed base path. \<open>instances\<close> gives the result of
  \<open>new ControllerClass()\<close>.
\<close>

definition controller_registrations ::
  "OpenAPIOptions \<Rightarrow> MetadataStorage \<Rightarrow> 'req controller_instance \<Rightarrow> class_id
   \<Rightarrow> 'req Registration list" where
  "controller_registrations openApiDoc st controllerInstance ControllerClass =
     (let rs = obj_or (map_of (routes (metadata st)) ControllerClass) [];
          controllerMetadata = map_of (controllers (metadata st)) ControllerClass;
          base = str_or (o_base openApiDoc) [];
          basePath = (case controllerMetadata of None \<Rightarrow> [] | Some cm \<Rightarrow> str_or (Some (c_path cm)) []);
          normalizedBasePath = (if startsWith_slash basePath then basePath else CHR ''/'' # basePath);
          finalBasePath = replace_slashes (base @ normalizedBasePath)
      in map (\<lambda>route. \<lparr> reg_mount = finalBasePath, reg_method = r_method route,
                         reg_path = (if r_path route = [] then ''/'' else r_path route),
                         reg_handler = route_wrapper controllerInstance (r_handlerName route) \<rparr>) rs)"

definition registerControllers ::
  "OpenAPIOptions \<Rightarrow> class_id list \<Rightarrow> (class_id \<Rightarrow> 'req controller_instance) \<Rightarrow> MetadataStorage
   \<Rightarrow> 'req Registration list" where
  "registerControllers openApiDoc ctrls instances st =
     concat (map (\<lambda>ControllerClass.
                    controller_registrations openApiDoc st (instances ControllerClass) ControllerClass)
                 ctrls)"

section \<open>Example inputs\<close>

definition example_param :: "string \<Rightarrow> location \<Rightarrow> string option \<Rightarrow> ParameterMetadata" where
  "example_param n l d =
     \<lparr> p_name = n, p_in = l, p_required = None, p_type = ''object'',
       p_description = d, p_schema = None \<rparr>"

definition example_route :: "ParameterMetadata list option \<Rightarrow> RouteMetadata" where
  "example_route ps =
     \<lparr> r_path = ''/item'', r_method = POST, r_handlerName = ''createItem'',
       r_description = None, r_summary = None, r_tags = None,
       r_parameters = ps, r_responses = None \<rparr>"

definition no_controller_options :: ControllerOptions where
  "no_controller_options = \<lparr> co_path = None, co_description = None, co_tags = None \<rparr>"

text \<open>A function object with nothing attached.\<close>

definition plain_fn :: fn_info where
  "plain_fn = \<lparr> fn_name = [], fn_text = ''function () { }'', fn_prototype = True,
                fn_design_properties = [], fn_design_type = [], fn_construct = Throws \<rparr>"

definition empty_heap :: heap where
  "empty_heap =
     \<lparr> fn_of = (\<lambda>r. plain_fn),
       obj_of = (\<lambda>r. \<lparr> obj_props = [], obj_constructor = Builtin B_Object \<rparr>),
       arr_of = (\<lambda>r. []),
       arr_text = (\<lambda>r. []),
       date_text = (\<lambda>r. ''Mon Nov 02 2026 00:00:00 GMT+0000''),
       global_of = (\<lambda>n. Undefined) \<rparr>"

text \<open>
  \<open>class TreeNode { parent: TreeNode; label: string }\<close> with its property types attached as
  \<open>design:properties\<close> metadata: the class refers to itself.
\<close>

definition tree_heap :: heap where
  "tree_heap = empty_heap\<lparr> fn_of := (\<lambda>r.
       \<lparr> fn_name = ''TreeNode'', fn_text = ''class TreeNode { }'', fn_prototype = True,
         fn_design_properties = [(''parent'', Fn 1), (''label'', Builtin B_String)],
         fn_design_type = [], fn_construct = Throws \<rparr>) \<rparr>"

text \<open>
  \<open>const a = []; a[0] = a; const holder = { items: a }\<close>: array 0 is its own first element,
  object 0 holds it.
\<close>

definition cyclic_heap :: heap where
  "cyclic_heap = empty_heap\<lparr>
       obj_of := (\<lambda>r. \<lparr> obj_props = [(''items'', Arr 0)], obj_constructor = Builtin B_Object \<rparr>),
       arr_of := (\<lambda>r. [Arr 0]) \<rparr>"

text \<open>\<open>getUsers() {}\<close>: no parameter, no declared return type.\<close>

definition getUsers_decl :: method_decl where
  "getUsers_decl = \<lparr> m_paramTypes = [], m_returnType = Undefined,
                     m_impl = ''getUsers() { }'', m_pendingResponses = [] \<rparr>"

text \<open>
  \<open>@Controller('users') class UserController { @Get('/') getUsers() {} }\<close>: the method
  decorator runs first, the class decorator after it.
\<close>

definition users_state :: "nat \<Rightarrow> heap \<Rightarrow> deco_state" where
  "users_state d h =
     Controller_st ''users'' no_controller_options 0
       (snd (Get d h (Some ''/'') no_route_options getUsers_decl 0 ''getUsers'' initial_state))"

definition options_with_base :: "string option \<Rightarrow> OpenAPIOptions" where
  "options_with_base b = \<lparr> o_title = ''Test API'', o_version = ''1.0.0'', o_description = None,
                            o_base = b, o_servers = None \<rparr>"

text \<open>\<open>createItem(dto: String) { save(dto) }\<close> without a declared return type.\<close>

definition createItem_decl :: method_decl where
  "createItem_decl = \<lparr> m_paramTypes = [Builtin B_String], m_returnType = Undefined,
                       m_impl = ''createItem(dto) { save(dto); }'', m_pendingResponses = [] \<rparr>"

text \<open>\<open>createItem(dto: String): String { return dto.trim(); }\<close>\<close>

definition createItem_typed_decl :: method_decl where
  "createItem_typed_decl = \<lparr> m_paramTypes = [Builtin B_String], m_returnType = Builtin B_String,
                       m_impl = ''createItem(dto) { return dto.trim(); }'', m_pendingResponses = [] \<rparr>"

text \<open>\<open>create(@Body() dto)\<close> where reflection reports the object \<open>holder\<close> as the parameter type.\<close>

definition holder_decl :: method_decl where
  "holder_decl = \<lparr> m_paramTypes = [Obj 0], m_returnType = Undefined,
                   m_impl = ''create(dto) { }'', m_pendingResponses = [] \<rparr>"


text \<open>
  A store holding the controller \<open>/test\<close> with one POST route \<open>/item\<close> that has a query, two
  body and a header parameter.
\<close>

definition test_controller :: ControllerMetadata where
  "test_controller = \<lparr> c_path = ''/test'', c_description = None, c_tags = None \<rparr>"

definition item_route :: RouteMetadata where
  "item_route = example_route (Some [example_param ''q'' InQuery None,
                    example_param ''body'' InBody (Some ''first''),
                    example_param ''body'' InBody (Some ''second''),
                    example_param ''h'' InHeader None])"

definition item_store :: MetadataStorage where
  "item_store = addRouteMetadata 0 item_route
                  (addControllerMetadata 0 test_controller new_MetadataStorage)"

text \<open>
  \<open>@Controller('/error') class ErrorController { @Get('/') fail() { return Promise.reject(); } }\<close>
  and the same with \<open>throw new Error("x")\<close>.
\<close>

definition fail_decl :: method_decl where
  "fail_decl = \<lparr> m_paramTypes = [], m_returnType = Undefined,
                 m_impl = ''fail() { return Promise.reject(); }'', m_pendingResponses = [] \<rparr>"

definition error_state :: "nat \<Rightarrow> heap \<Rightarrow> deco_state" where
  "error_state d h =
     Controller_st ''/error'' no_controller_options 0
       (snd (Get d h (Some ''/'') no_route_options fail_decl 0 ''fail'' initial_state))"

definition rejecting_instance :: "unit controller_instance" where
  "rejecting_instance handlerName req = ReturnsDeferred (RejectsWith ThrownUndefined)"

definition throwing_instance :: "unit controller_instance" where
  "throwing_instance handlerName req = ThrowsValue (WithMessage (VStr ''x''))"

section \<open>Path composition and the specification builder: proofs\<close>

lemma collapse_runs_slash:
  "collapse_runs (CHR ''/'' # cs) = CHR ''/'' # collapse_runs (dropWhile (\<lambda>x. x = CHR ''/'') cs)"
proof (induction cs)
  case Nil
  then show ?case by simp
next
  case (Cons a cs)
  then show ?case by (cases cs) auto
qed

lemma collapse_runs_other:
  "c \<noteq> CHR ''/'' \<Longrightarrow> collapse_runs (c # cs) = c # collapse_runs cs"
  by (cases cs) auto

lemma replace_slashes_collapse_runs: "replace_slashes s = collapse_runs s"
proof (induction s rule: replace_slashes.induct)
  case 1
  show ?case by simp
next
  case (2 c cs)
  show ?case
  proof (cases "c = CHR ''/''")
    case True
    with 2 show ?thesis by (simp add: collapse_runs_slash)
  next
    case False
    with 2 show ?thesis by (simp add: collapse_runs_other)
  qed
qed

lemma replace_slashes_hd:
  "replace_slashes s = (case s of [] \<Rightarrow> [] | c # cs \<Rightarrow> c # tl (replace_slashes s))"
  by (cases s) auto

lemma takeWhile_replace_dropWhile:
  "takeWhile (\<lambda>c. c = CHR ''/'') (replace_slashes (dropWhile (\<lambda>x. x = CHR ''/'') cs)) = []"
proof (cases "dropWhile (\<lambda>x. x = CHR ''/'') cs")
  case Nil
  then show ?thesis by (simp only: replace_slashes.simps takeWhile.simps)
next
  case (Cons a list)
  then have "a \<noteq> CHR ''/''"
    using hd_dropWhile [of "\<lambda>x. x = CHR ''/''" cs] by auto
  with Cons show ?thesis by simp
qed

lemma leading_replace: "leading_slashes (replace_slashes s) = min 1 (leading_slashes s)"
proof (cases s)
  case Nil
  then show ?thesis by (simp add: leading_slashes_def)
next
  case (Cons c cs)
  then show ?thesis
    by (cases "c = CHR ''/''") (simp_all add: leading_slashes_def takeWhile_replace_dropWhile)
qed

lemma set_operation_keys: "fst ` set (set_operation k m op ps) = insert k (fst ` set ps)"
  unfolding set_operation_def Let_def
  by (auto simp: AList.dom_update map_of_eq_None_iff split: option.splits dest: map_of_SomeD
      intro: rev_image_eqI)

lemma set_update_subset: "set (AList.update k v al) \<subseteq> insert (k, v) (set al)"
  by (induction al) auto

lemma ops_of_set_operation: "ops_of (set_operation k m op ps) \<subseteq> insert op (ops_of ps)"
proof
  fix x assume "x \<in> ops_of (set_operation k m op ps)"
  then obtain k' item' m' where in_ps: "(k', item') \<in> set (set_operation k m op ps)"
    and in_item: "(m', x) \<in> set item'"
    by (auto simp: ops_of_def)
  show "x \<in> insert op (ops_of ps)"
  proof (cases "map_of ps k")
    case None
    then have eq: "set_operation k m op ps = AList.update k (AList.update m op []) (ps @ [(k, [])])"
      by (simp add: set_operation_def Let_def map_add_def)
    from in_ps have "(k', item') \<in> {(k, [(m, op)]), (k, [])} \<union> set ps"
      unfolding eq using set_update_subset [of k "AList.update m op []" "ps @ [(k, [])]"]
      by auto
    with in_item show ?thesis by (auto simp: ops_of_def)
  next
    case (Some item)
    then have eq: "set_operation k m op ps = AList.update k (AList.update m op item) ps"
      by (simp add: set_operation_def Let_def)
    from Some have kin: "(k, item) \<in> set ps" by (rule map_of_SomeD)
    from in_ps have "(k', item') \<in> insert (k, AList.update m op item) (set ps)"
      unfolding eq using set_update_subset [of k "AList.update m op item" ps] by auto
    then show ?thesis
    proof
      assume "(k', item') = (k, AList.update m op item)"
      with in_item have "(m', x) \<in> insert (m, op) (set item)"
        using set_update_subset [of m op item] by auto
      with kin show ?thesis by (auto simp: ops_of_def)
    next
      assume "(k', item') \<in> set ps"
      with in_item show ?thesis by (auto simp: ops_of_def)
    qed
  qed
qed

lemma snd_route_fold: "snd (fold (route_step opts cm) rs (spec, st)) = st"
  by (induction rs arbitrary: spec) (simp_all add: route_step_def)

lemma snd_controller_step: "snd (controller_step opts kc (spec, st)) = st"
  by (simp add: controller_step_def Let_def snd_route_fold)

lemma snd_controller_fold: "snd (fold (controller_step opts) cs (spec, st)) = st"
proof (induction cs arbitrary: spec)
  case Nil
  show ?case by simp
next
  case (Cons kc cs)
  obtain spec' where "controller_step opts kc (spec, st) = (spec', st)"
    using snd_controller_step [of opts kc spec st] by (cases "controller_step opts kc (spec, st)") simp
  then show ?case by (simp add: Cons)
qed

lemma generate_store_unchanged: "snd (generateOpenAPISpec opts st) = st"
  by (simp add: generateOpenAPISpec_def getMetadata_def snd_controller_fold)

lemma ops_of_route_fold:
  "ops_of (paths (fst (fold (route_step opts cm) rs (spec, st)))) \<subseteq>
     ops_of (paths spec) \<union> routeSpec cm ` set rs"
proof (induction rs arbitrary: spec)
  case Nil
  show ?case by simp
next
  case (Cons r rs)
  let ?spec' = "spec\<lparr> paths := set_operation (fullPath opts cm r) (r_method r)
                           (routeSpec cm r) (paths spec) \<rparr>"
  have step: "route_step opts cm r (spec, st) = (?spec', st)"
    by (simp add: route_step_def)
  have "ops_of (paths ?spec') \<subseteq> insert (routeSpec cm r) (ops_of (paths spec))"
    by (simp add: ops_of_set_operation)
  with Cons [of ?spec'] show ?case by (auto simp: step)
qed

lemma ops_of_controller_fold:
  "ops_of (paths (fst (fold (controller_step opts) cs (spec, st)))) \<subseteq>
     ops_of (paths spec) \<union>
     {routeSpec cm r | k cm r. (k, cm) \<in> set cs \<and>
                               r \<in> set (obj_or (map_of (routes (metadata st)) k) [])}"
proof (induction cs arbitrary: spec)
  case Nil
  show ?case by simp
next
  case (Cons kc cs)
  obtain k cm where kc: "kc = (k, cm)" by (cases kc)
  obtain spec' where step: "controller_step opts kc (spec, st) = (spec', st)"
    using snd_controller_step [of opts kc spec st] by (cases "controller_step opts kc (spec, st)") simp
  have "spec' = fst (fold (route_step opts cm) (obj_or (map_of (routes (metadata st)) k) []) (spec, st))"
    using step by (simp add: controller_step_def kc Let_def)
  then have sub: "ops_of (paths spec') \<subseteq>
        ops_of (paths spec) \<union> routeSpec cm ` set (obj_or (map_of (routes (metadata st)) k) [])"
    by (simp add: ops_of_route_fold)
  from Cons [of spec'] sub show ?case
    unfolding kc [symmetric] fold_simps comp_apply step unfolding kc
    by (simp add: subset_iff) blast
qed

lemma keys_route_fold:
  "fst ` set (paths (fst (fold (route_step opts cm) rs (spec, st)))) =
     fst ` set (paths spec) \<union> fullPath opts cm ` set rs"
proof (induction rs arbitrary: spec)
  case Nil
  show ?case by simp
next
  case (Cons r rs)
  let ?spec' = "spec\<lparr> paths := set_operation (fullPath opts cm r) (r_method r)
                           (routeSpec cm r) (paths spec) \<rparr>"
  have step: "route_step opts cm r (spec, st) = (?spec', st)"
    by (simp add: route_step_def)
  have "fst ` set (paths ?spec') = insert (fullPath opts cm r) (fst ` set (paths spec))"
    by (simp add: set_operation_keys)
  then show ?case
    by (simp add: Cons step)
qed

lemma keys_controller_fold:
  "fst ` set (paths (fst (fold (controller_step opts) cs (spec, st)))) =
     fst ` set (paths spec) \<union>
     {fullPath opts cm r | k cm r. (k, cm) \<in> set cs \<and>
                              r \<in> set (obj_or (map_of (routes (metadata st)) k) [])}"
proof (induction cs arbitrary: spec)
  case Nil
  show ?case by simp
next
  case (Cons kc cs)
  obtain k cm where kc: "kc = (k, cm)" by (cases kc)
  obtain spec' where step: "controller_step opts kc (spec, st) = (spec', st)"
    using snd_controller_step [of opts kc spec st] by (cases "controller_step opts kc (spec, st)") simp
  have "spec' = fst (fold (route_step opts cm) (obj_or (map_of (routes (metadata st)) k) []) (spec, st))"
    using step by (simp add: controller_step_def kc Let_def)
  then have keys': "fst ` set (paths spec') =
        fst ` set (paths spec) \<union> fullPath opts cm ` set (obj_or (map_of (routes (metadata st)) k) [])"
    by (simp add: keys_route_fold)
  have "fst ` set (paths (fst (fold (controller_step opts) (kc # cs) (spec, st)))) =
        fst ` set (paths spec') \<union>
        {fullPath opts cm r | k cm r. (k, cm) \<in> set cs \<and>
                                 r \<in> set (obj_or (map_of (routes (metadata st)) k) [])}"
    by (simp add: Cons step)
  also have "\<dots> = fst ` set (paths spec) \<union>
     {fullPath opts cm r | k cm r. (k, cm) \<in> set (kc # cs) \<and>
                              r \<in> set (obj_or (map_of (routes (metadata st)) k) [])}"
    unfolding keys' kc by auto
  finally show ?case .
qed

lemma fullPath_spec:
  "fullPath opts cm r =
     composed_path_spec (str_or (o_base opts) []) (lead_slash (c_path cm)) (lead_slash (r_path r))"
  by (simp add: fullPath_def composed_path_spec_def lead_slash_def Let_def
      replace_slashes_collapse_runs)

lemma generate_keys:
  "fst ` set (paths (fst (generateOpenAPISpec opts st))) =
     {composed_path_spec (str_or (o_base opts) []) (lead_slash (c_path cm)) (lead_slash (r_path r))
      | k cm r. (k, cm) \<in> set (controllers (metadata st)) \<and>
                r \<in> set (obj_or (map_of (routes (metadata st)) k) [])}"
  by (simp add: generateOpenAPISpec_def getMetadata_def keys_controller_fold initial_spec_def
      fullPath_spec)

lemma generate_ops:
  "ops_of (paths (fst (generateOpenAPISpec opts st))) \<subseteq>
     {routeSpec cm r | k cm r. (k, cm) \<in> set (controllers (metadata st)) \<and>
                r \<in> set (obj_or (map_of (routes (metadata st)) k) [])}"
  using ops_of_controller_fold [of opts "controllers (metadata st)" "initial_spec opts" st]
  by (simp add: generateOpenAPISpec_def getMetadata_def initial_spec_def ops_of_def)

lemma routeSpec_parameters_no_body:
  "op_parameters (routeSpec cm route) = Some qs \<Longrightarrow> q \<in> set qs \<Longrightarrow> p_in q \<noteq> InBody"
  by (auto simp: routeSpec_def Let_def split: option.splits if_splits list.splits)

lemma filter_body_first:
  "p_in b = InBody \<Longrightarrow> \<forall>p\<in>set pre. p_in p \<noteq> InBody \<Longrightarrow>
   filter (\<lambda>p. p_in p = InBody) (pre @ b # post) = b # filter (\<lambda>p. p_in p = InBody) post"
  by (induction pre) auto

lemma lookup_set_operation:
  "lookup_operation (set_operation k m op ps) k' m' =
     (if k' = k \<and> m' = m then Some op else lookup_operation ps k' m')"
proof (cases "map_of ps k")
  case None
  then have eq: "set_operation k m op ps = AList.update k (AList.update m op []) (ps @ [(k, [])])"
    by (simp add: set_operation_def Let_def map_add_def)
  show ?thesis
    unfolding eq using None
    by (simp add: lookup_operation_def AList.update_conv' map_add_def split: option.splits)
next
  case (Some item)
  then have eq: "set_operation k m op ps = AList.update k (AList.update m op item) ps"
    by (simp add: set_operation_def Let_def)
  show ?thesis
    unfolding eq using Some
    by (simp add: lookup_operation_def AList.update_conv' split: option.splits)
qed

lemma paths_route_step:
  "paths (fst (route_step opts cm route acc)) =
     set_operation (fullPath opts cm route) (r_method route) (routeSpec cm route) (paths (fst acc))"
  by (simp add: route_step_def split: prod.splits)

lemma lookup_route_fold:
  "lookup_operation (paths (fst (fold (\<lambda>x. route_step opts (fst x) (snd x)) xs acc))) k m =
     (case find (writes_to opts k m) (rev xs) of
        Some x \<Rightarrow> Some (routeSpec (fst x) (snd x))
      | None \<Rightarrow> lookup_operation (paths (fst acc)) k m)"
proof (induction xs rule: rev_induct)
  case Nil
  show ?case by simp
next
  case (snoc x xs)
  then show ?case
    by (auto simp: paths_route_step lookup_set_operation writes_to_def)
qed

lemma controller_fold_flat:
  "fold (controller_step opts) cs (spec, st) =
     fold (\<lambda>x. route_step opts (fst x) (snd x))
       (concat (map (\<lambda>kc. map (\<lambda>r. (snd kc, r)) (obj_or (map_of (routes (metadata st)) (fst kc)) []))
                    cs))
       (spec, st)"
proof (induction cs arbitrary: spec)
  case Nil
  show ?case by simp
next
  case (Cons kc cs)
  let ?rs = "obj_or (map_of (routes (metadata st)) (fst kc)) []"
  have step: "controller_step opts kc (spec, st) = fold (route_step opts (snd kc)) ?rs (spec, st)"
    by (simp add: controller_step_def Let_def)
  obtain spec' where s': "fold (route_step opts (snd kc)) ?rs (spec, st) = (spec', st)"
    using snd_route_fold [of opts "snd kc" ?rs spec st] by (metis prod.collapse)
  have m: "fold (\<lambda>x. route_step opts (fst x) (snd x)) (map (\<lambda>r. (snd kc, r)) ?rs) (spec, st) =
           fold (route_step opts (snd kc)) ?rs (spec, st)"
    by (simp add: fold_map comp_def)
  show ?case
    using Cons.IH [of spec'] by (simp add: step s' m)
qed

text \<open>
  \<open>spec.paths[k][m]\<close> of the generated document is the operation built for the last stored
  route, in the order of the two loops, that composes to \<open>k\<close> and has the method \<open>m\<close>.
\<close>

lemma generate_lookup:
  "lookup_operation (paths (fst (generateOpenAPISpec opts st))) k m =
     (case find (writes_to opts k m) (rev (all_routes st)) of
        Some x \<Rightarrow> Some (routeSpec (fst x) (snd x))
      | None \<Rightarrow> None)"
proof -
  have "lookup_operation (paths (fst (initial_spec opts, st))) k m = None"
    by (simp add: initial_spec_def lookup_operation_def)
  then show ?thesis
    unfolding generateOpenAPISpec_def getMetadata_def prod.case controller_fold_flat
      lookup_route_fold all_routes_def
    by (simp split: option.splits)
qed

lemma find_last_writer:
  assumes "xs = before @ x # after" and "P x" and "\<forall>y\<in>set after. \<not> P y"
  shows "find P (rev xs) = Some x"
proof -
  have "find P (rev after @ ys) = find P ys" for ys
    using assms(3) by (induction after arbitrary: ys rule: rev_induct) auto
  with assms(1,2) show ?thesis by simp
qed

lemma routeSpec_body_parameter:
  assumes params: "r_parameters route = Some (pre @ b # post)"
    and body: "p_in b = InBody"
    and first: "\<forall>p\<in>set pre. p_in p \<noteq> InBody"
  shows "op_requestBody (routeSpec cm route) =
           Some \<lparr> rb_description = str_or (p_description b) ''Request body'',
                  rb_required = (p_required b \<noteq> Some False),
                  rb_content = [(''application/json'', obj_or (p_schema b) object_schema)] \<rparr>"
    and "op_parameters (routeSpec cm route) =
           (if filter (\<lambda>p. p_in p \<noteq> InBody) (pre @ post) = [] then None
            else Some (filter (\<lambda>p. p_in p \<noteq> InBody) (pre @ post)))"
proof -
  have fb: "filter (\<lambda>p. p_in p = InBody) (pre @ b # post) = b # filter (\<lambda>p. p_in p = InBody) post"
    using body first by (rule filter_body_first)
  have fo: "filter (\<lambda>p. p_in p \<noteq> InBody) (pre @ b # post) = filter (\<lambda>p. p_in p \<noteq> InBody) (pre @ post)"
    using body by simp
  show "op_requestBody (routeSpec cm route) =
           Some \<lparr> rb_description = str_or (p_description b) ''Request body'',
                  rb_required = (p_required b \<noteq> Some False),
                  rb_content = [(''application/json'', obj_or (p_schema b) object_schema)] \<rparr>"
    unfolding routeSpec_def Let_def params option.case fb list.case
    by (simp add: requestBody_of_def)
  show "op_parameters (routeSpec cm route) =
           (if filter (\<lambda>p. p_in p \<noteq> InBody) (pre @ post) = [] then None
            else Some (filter (\<lambda>p. p_in p \<noteq> InBody) (pre @ post)))"
    unfolding routeSpec_def Let_def params option.case fb fo list.case
    by simp
qed

text \<open>
  Claim C2. Take a stored route whose parameter list contains an entry with location
  \<open>body\<close>, and that no route visited later by the builder has the same composed path and
  method (such a route would replace its operation). The generated document has, under the
  route's composed path and method, the operation built for that route; the \<open>parameters\<close>
  array of that operation has no entry with location \<open>body\<close> (and is left out altogether
  when no other parameter remains); the first body parameter, and none of the later ones,
  is its \<open>requestBody\<close>, with the parameter's description (or \<open>Request body\<close>), its
  \<open>required\<close> flag (true unless given as false) and its schema (or the opaque object
  schema) under \<open>application/json\<close>. Moreover no operation of any generated document lists
  a body parameter.
\<close>

theorem C2_body_parameter_becomes_requestBody:
  assumes stored: "all_routes st = before @ (cm, route) # after"
    and last: "\<forall>x\<in>set after. \<not> writes_to opts (fullPath opts cm route) (r_method route) x"
    and params: "r_parameters route = Some (pre @ b # post)"
    and body: "p_in b = InBody"
    and first: "\<forall>p\<in>set pre. p_in p \<noteq> InBody"
  shows "lookup_operation (paths (fst (generateOpenAPISpec opts st)))
           (fullPath opts cm route) (r_method route) = Some (routeSpec cm route)
       \<and> op_requestBody (routeSpec cm route) =
           Some \<lparr> rb_description = str_or (p_description b) ''Request body'',
                  rb_required = (p_required b \<noteq> Some False),
                  rb_content = [(''application/json'', obj_or (p_schema b) object_schema)] \<rparr>
       \<and> op_parameters (routeSpec cm route) =
           (if filter (\<lambda>p. p_in p \<noteq> InBody) (pre @ post) = [] then None
            else Some (filter (\<lambda>p. p_in p \<noteq> InBody) (pre @ post)))
       \<and> (\<forall>qs. op_parameters (routeSpec cm route) = Some qs \<longrightarrow> (\<forall>q\<in>set qs. p_in q \<noteq> InBody))
       \<and> (\<forall>op\<in>ops_of (paths (fst (generateOpenAPISpec opts st))).
            \<forall>qs. op_parameters op = Some qs \<longrightarrow> (\<forall>q\<in>set qs. p_in q \<noteq> InBody))"
proof (intro conjI)
  have "find (writes_to opts (fullPath opts cm route) (r_method route)) (rev (all_routes st)) =
          Some (cm, route)"
    using stored _ last by (rule find_last_writer) (simp add: writes_to_def)
  then show "lookup_operation (paths (fst (generateOpenAPISpec opts st)))
           (fullPath opts cm route) (r_method route) = Some (routeSpec cm route)"
    by (simp add: generate_lookup)
  show "op_requestBody (routeSpec cm route) =
           Some \<lparr> rb_description = str_or (p_description b) ''Request body'',
                  rb_required = (p_required b \<noteq> Some False),
                  rb_content = [(''application/json'', obj_or (p_schema b) object_schema)] \<rparr>"
    using params body first by (rule routeSpec_body_parameter(1))
  show "op_parameters (routeSpec cm route) =
           (if filter (\<lambda>p. p_in p \<noteq> InBody) (pre @ post) = [] then None
            else Some (filter (\<lambda>p. p_in p \<noteq> InBody) (pre @ post)))"
    using params body first by (rule routeSpec_body_parameter(2))
  show "\<forall>qs. op_parameters (routeSpec cm route) = Some qs \<longrightarrow> (\<forall>q\<in>set qs. p_in q \<noteq> InBody)"
    using routeSpec_parameters_no_body by blast
  show "\<forall>op\<in>ops_of (paths (fst (generateOpenAPISpec opts st))).
            \<forall>qs. op_parameters op = Some qs \<longrightarrow> (\<forall>q\<in>set qs. p_in q \<noteq> InBody)"
    using generate_ops [of opts st] routeSpec_parameters_no_body by blast
qed

lemma item_routes: "all_routes item_store = [] @ (test_controller, item_route) # []"
  by (simp add: all_routes_def item_store_def addRouteMetadata_def addControllerMetadata_def
      new_MetadataStorage_def obj_or_def Let_def)

lemma item_fullPath: "fullPath (options_with_base None) test_controller item_route = ''/test/item''"
  by (simp add: fullPath_def test_controller_def item_route_def example_route_def
      options_with_base_def str_or_def startsWith_slash_def Let_def)

text \<open>
  The store holding one POST route \<open>/item\<close> under \<open>/test\<close> with a query, two body and a
  header parameter: the document's operation has the first body parameter as its request
  body and the two others as its parameters.
\<close>

theorem C2_witness:
  "all_routes item_store = [] @ (test_controller, item_route) # []
   \<and> lookup_operation (paths (fst (generateOpenAPISpec (options_with_base None) item_store)))
       ''/test/item'' POST =
       Some \<lparr> op_summary = None, op_description = None, op_tags = [],
              op_responses = default_responses,
              op_parameters = Some [example_param ''q'' InQuery None, example_param ''h'' InHeader None],
              op_requestBody = Some \<lparr> rb_description = ''first'', rb_required = True,
                                      rb_content = [(''application/json'', object_schema)] \<rparr> \<rparr>"
  using C2_body_parameter_becomes_requestBody
    [of item_store "[]" test_controller item_route "[]" "options_with_base None"
        "[example_param ''q'' InQuery None]" "example_param ''body'' InBody (Some ''first'')"
        "[example_param ''body'' InBody (Some ''second''), example_param ''h'' InHeader None]"]
    item_routes item_fullPath
  by (simp add: item_route_def test_controller_def example_route_def example_param_def str_or_def
      obj_or_def routeSpec_def requestBody_of_def Let_def)

text \<open>
  Claim C10. Building the document returns the metadata store it was given: the controllers
  map and every controller's route list are what they were before the call, and building
  again from the returned store gives the same document.
\<close>

theorem C10_generate_leaves_store_unchanged:
  "snd (generateOpenAPISpec opts st) = st
   \<and> controllers (metadata (snd (generateOpenAPISpec opts st))) = controllers (metadata st)
   \<and> routes (metadata (snd (generateOpenAPISpec opts st))) = routes (metadata st)
   \<and> fst (generateOpenAPISpec opts (snd (generateOpenAPISpec opts st))) = fst (generateOpenAPISpec opts st)"
  by (simp add: generate_store_unchanged)

text \<open>
  Claim C8 says the recorded base path starts with exactly one slash. The decorator only
  prepends a slash when none is there, so a path given with two leading slashes is recorded
  with both.
\<close>

theorem C8_counterexample:
  "map_of (controllers (metadata (Controller ''//users'' no_controller_options 0 new_MetadataStorage))) 0
     = Some \<lparr> c_path = ''//users'', c_description = None, c_tags = None \<rparr>
   \<and> leading_slashes ''//users'' = 2"
  by (simp add: Controller_def no_controller_options_def new_MetadataStorage_def
      addControllerMetadata_def startsWith_slash_def leading_slashes_def)

lemma leading_lead_slash: "leading_slashes (lead_slash p) = max 1 (leading_slashes p)"
  by (cases p) (auto simp: lead_slash_def startsWith_slash_def leading_slashes_def)

lemma leading_fullPath_no_base:
  "str_or (o_base opts) [] = [] \<Longrightarrow> leading_slashes (fullPath opts cm r) = 1"
  unfolding fullPath_def Let_def leading_replace
  by (cases "c_path cm") (auto simp: startsWith_slash_def leading_slashes_def)

text \<open>
  Claim C8, amended. For every path \<open>p\<close> (and options that do not override \<open>path\<close>) the base
  path recorded for the controller is \<open>p\<close> itself when \<open>p\<close> starts with a slash and \<open>/p\<close>
  otherwise; it starts with a slash, with as many leading slashes as \<open>p\<close> has and at least
  one. Repeated leading slashes disappear only at composition: without a global prefix the
  composed path of every route starts with exactly one slash.
\<close>

theorem C8_recorded_base_path_starts_with_slash:
  assumes "co_path copts = None"
  shows "\<exists>cm. map_of (controllers (metadata (Controller p copts k st))) k = Some cm
           \<and> c_path cm = (if startsWith_slash p then p else CHR ''/'' # p)
           \<and> startsWith_slash (c_path cm)
           \<and> leading_slashes (c_path cm) = max 1 (leading_slashes p)
           \<and> leading_slashes (fullPath (opts\<lparr> o_base := None \<rparr>) cm r) = 1"
proof -
  let ?cm = "\<lparr> c_path = lead_slash p,
               c_description = (case co_description copts of None \<Rightarrow> None | Some d \<Rightarrow> d),
               c_tags = (case co_tags copts of None \<Rightarrow> None | Some t \<Rightarrow> t) \<rparr>"
  have "map_of (controllers (metadata (Controller p copts k st))) k = Some ?cm"
    using assms by (simp add: Controller_def addControllerMetadata_def AList.update_conv' lead_slash_def)
  moreover have "startsWith_slash (lead_slash p)"
    by (simp add: lead_slash_def startsWith_slash_def)
  moreover have "leading_slashes (fullPath (opts\<lparr> o_base := None \<rparr>) ?cm r) = 1"
    by (rule leading_fullPath_no_base) (simp add: str_or_def)
  ultimately show ?thesis
    by (simp add: leading_lead_slash lead_slash_def [symmetric])
qed

text \<open>The path \<open>users\<close> is recorded as \<open>/users\<close>.\<close>

theorem C8_witness:
  "\<exists>cm. map_of (controllers (metadata (Controller ''users'' no_controller_options 7 new_MetadataStorage))) 7 = Some cm
        \<and> c_path cm = ''/users'' \<and> leading_slashes (c_path cm) = 1"
  using C8_recorded_base_path_starts_with_slash [of no_controller_options "''users''" 7 new_MetadataStorage]
  by (auto simp: no_controller_options_def startsWith_slash_def leading_slashes_def)

section \<open>The schema inference engine: proofs\<close>

subsection \<open>Unfolding the engine level by level\<close>

lemma getTypeSchema_0: "getTypeSchema 0 h t c = (Inl RangeError, c)"
  by (simp add: getTypeSchema_def stack_exhausted_def)

lemma getTypeSchema_Suc: "getTypeSchema (Suc d) h t c = getTypeSchema_body h (engine_at d h) t c"
  by (simp add: getTypeSchema_def Let_def)

lemma processArrayType_0: "processArrayType 0 h t c = (Inl RangeError, c)"
  by (simp add: processArrayType_def stack_exhausted_def)

lemma processArrayType_Suc:
  "processArrayType (Suc d) h t c = processArrayType_body h (engine_at d h) t c"
  by (simp add: processArrayType_def Let_def)

lemma inferTypeFromName_0: "inferTypeFromName 0 h n c = (Inl RangeError, c)"
  by (simp add: inferTypeFromName_def stack_exhausted_def)

lemma inferTypeFromName_Suc:
  "inferTypeFromName (Suc d) h n c = inferTypeFromName_body h (engine_at d h) n c"
  by (simp add: inferTypeFromName_def Let_def)

lemma processFunctionType_0: "processFunctionType 0 h r c = (Inl RangeError, c)"
  by (simp add: processFunctionType_def stack_exhausted_def)

lemma processFunctionType_Suc:
  "processFunctionType (Suc d) h r c = processFunctionType_body h (engine_at d h) r c"
  by (simp add: processFunctionType_def Let_def)

lemma tryExtractMetadataProperties_0:
  "tryExtractMetadataProperties 0 h r ps c = (Inl RangeError, c)"
  by (simp add: tryExtractMetadataProperties_def stack_exhausted_def)

lemma tryExtractMetadataProperties_Suc:
  "tryExtractMetadataProperties (Suc d) h r ps c =
     tryExtractMetadataProperties_body h (engine_at d h) r ps c"
  by (simp add: tryExtractMetadataProperties_def Let_def)

lemma tryInstantiateAndExtractProperties_0:
  "tryInstantiateAndExtractProperties 0 h r ps c = (Inl RangeError, c)"
  by (simp add: tryInstantiateAndExtractProperties_def stack_exhausted_def)

lemma tryInstantiateAndExtractProperties_Suc:
  "tryInstantiateAndExtractProperties (Suc d) h r ps c =
     tryInstantiateAndExtractProperties_body h (engine_at d h) r ps c"
  by (simp add: tryInstantiateAndExtractProperties_def Let_def)

lemma processObjectInstance_0: "processObjectInstance 0 h t c = (Inl RangeError, c)"
  by (simp add: processObjectInstance_def stack_exhausted_def)

lemma processObjectInstance_Suc:
  "processObjectInstance (Suc d) h t c = processObjectInstance_body h (engine_at d h) t c"
  by (simp add: processObjectInstance_def Let_def)

lemma inferSchemaFromValue_0: "inferSchemaFromValue 0 h v c = (Inl RangeError, c)"
  by (simp add: inferSchemaFromValue_def stack_exhausted_def)

lemma inferSchemaFromValue_Suc:
  "inferSchemaFromValue (Suc d) h v c = inferSchemaFromValue_body h (engine_at d h) v c"
  by (simp add: inferSchemaFromValue_def Let_def)

lemma processArrayValue_0: "processArrayValue 0 h r c = (Inl RangeError, c)"
  by (simp add: processArrayValue_def stack_exhausted_def)

lemma processArrayValue_Suc:
  "processArrayValue (Suc d) h r c = processArrayValue_body h (engine_at d h) r c"
  by (simp add: processArrayValue_def Let_def)

declare engine_at.simps [simp del]

lemmas engine_0 = getTypeSchema_0 processArrayType_0 inferTypeFromName_0 processFunctionType_0
  tryExtractMetadataProperties_0 tryInstantiateAndExtractProperties_0 processObjectInstance_0
  inferSchemaFromValue_0 processArrayValue_0

lemmas engine_Suc = getTypeSchema_Suc processArrayType_Suc inferTypeFromName_Suc
  processFunctionType_Suc tryExtractMetadataProperties_Suc tryInstantiateAndExtractProperties_Suc
  processObjectInstance_Suc inferSchemaFromValue_Suc processArrayValue_Suc

lemmas engine_fold = getTypeSchema_def [symmetric] processArrayType_def [symmetric]
  inferTypeFromName_def [symmetric] processFunctionType_def [symmetric]
  tryExtractMetadataProperties_def [symmetric] tryInstantiateAndExtractProperties_def [symmetric]
  processObjectInstance_def [symmetric] inferSchemaFromValue_def [symmetric]
  processArrayValue_def [symmetric]

lemmas engine_body = getTypeSchema_body_def processArrayType_body_def inferTypeFromName_body_def
  processFunctionType_body_def tryExtractMetadataProperties_body_def
  tryInstantiateAndExtractProperties_body_def processObjectInstance_body_def
  inferSchemaFromValue_body_def processArrayValue_body_def

subsection \<open>The functions that catch\<close>

lemma tryExtractMetadataProperties_returns:
  "\<exists>ps' c'. tryExtractMetadataProperties (Suc d) h r ps c = (Inr ps', c')"
  by (simp add: tryExtractMetadataProperties_Suc tryExtractMetadataProperties_body_def
      split: prod.splits option.splits)

lemma tryInstantiateAndExtractProperties_returns:
  "\<exists>ps' c'. tryInstantiateAndExtractProperties (Suc d) h r ps c = (Inr ps', c')"
  by (simp add: tryInstantiateAndExtractProperties_Suc tryInstantiateAndExtractProperties_body_def
      split: prod.splits option.splits construct_result.splits)

lemma processFunctionType_returns:
  "\<exists>s c'. processFunctionType (Suc (Suc d)) h r c = (Inr s, c')"
proof -
  obtain ps1 c1 where m: "tryExtractMetadataProperties (Suc d) h r [] c = (Inr ps1, c1)"
    using tryExtractMetadataProperties_returns by blast
  obtain ps2 c2 where i: "tryInstantiateAndExtractProperties (Suc d) h r ps1 c1 = (Inr ps2, c2)"
    using tryInstantiateAndExtractProperties_returns by blast
  show ?thesis
    unfolding processFunctionType_Suc processFunctionType_body_def engine_fold
    using m i by (cases "ps1 = []") auto
qed

lemma inferTypeFromName_returns:
  "\<exists>s c'. inferTypeFromName (Suc d) h n c = (Inr s, c')"
  by (simp add: inferTypeFromName_Suc inferTypeFromName_body_def Let_def
      split: prod.splits sum.splits)

lemma processArrayType_returns:
  "\<exists>s c'. processArrayType (Suc (Suc d)) h t c = (Inr s, c')"
proof (cases "if truthy t then match_generic (text_of h t) else None")
  case None
  then show ?thesis
    by (simp add: processArrayType_Suc processArrayType_body_def)
next
  case (Some cap)
  obtain s c' where "inferTypeFromName (Suc d) h (trim cap) c = (Inr s, c')"
    using inferTypeFromName_returns by blast
  with Some show ?thesis
    unfolding processArrayType_Suc processArrayType_body_def engine_fold
    by simp
qed

lemma processObjectInstance_no_entries:
  "own_entries h t = [] \<Longrightarrow>
   processObjectInstance (Suc d) h t c = (Inr (Schema ''object'' None None None (Some [])), c)"
  by (simp add: processObjectInstance_Suc processObjectInstance_body_def)

lemma getTypeSchema_cached:
  "c t = Some s \<Longrightarrow> getTypeSchema (Suc d) h t c = (Inr s, c)"
  by (simp add: getTypeSchema_Suc getTypeSchema_body_def)

lemma getTypeSchema_returns:
  assumes "\<forall>r. t \<noteq> Obj r" and "\<forall>r. t \<noteq> Arr r"
  shows "\<exists>s c'. getTypeSchema (Suc (Suc (Suc d))) h t c = (Inr s, c') \<and> c' t = Some s"
proof (cases "c t")
  case (Some s)
  then show ?thesis by (simp add: getTypeSchema_cached)
next
  case None
  let ?c1 = "c(t \<mapsto> object_schema)"
  obtain sa ca where a: "processArrayType (Suc (Suc d)) h t ?c1 = (Inr sa, ca)"
    using processArrayType_returns by blast
  have f: "\<And>r. \<exists>sf cf. processFunctionType (Suc (Suc d)) h r ?c1 = (Inr sf, cf)"
    using processFunctionType_returns by blast
  have o: "own_entries h t = []"
    using assms by (cases t) (simp_all add: own_entries_def)
  show ?thesis
  proof (cases t)
    case (Fn r)
    obtain sf cf where "processFunctionType (Suc (Suc d)) h r ?c1 = (Inr sf, cf)"
      using f by blast
    with None a Fn show ?thesis
      unfolding getTypeSchema_Suc [of "Suc (Suc d)"] getTypeSchema_body_def engine_fold
      by (simp add: Let_def truthy_def)
  next
    case (Obj r)
    with assms show ?thesis by simp
  next
    case (Arr r)
    with assms show ?thesis by simp
  qed (use None a o in \<open>simp_all add: getTypeSchema_Suc [of "Suc (Suc d)"] getTypeSchema_body_def
        engine_fold Let_def processObjectInstance_no_entries\<close>)
qed

lemma tree_node_schema:
  "fst (getTypeSchema (Suc (Suc (Suc (Suc d)))) tree_heap (Fn 1) empty_cache) =
     Inr (Schema ''object'' None None None
            (Some [(''parent'', object_schema), (''label'', string_schema)]))"
  by (simp add: engine_Suc engine_body engine_fold tree_heap_def empty_heap_def empty_cache_def
      truthy_def isArrayType_def name_of_def text_of_def starts_with_def assign_prop_def Let_def)

lemma cyclic_array_overflows:
  "inferSchemaFromValue d cyclic_heap (Arr 0) c = (Inl RangeError, c)
   \<and> processArrayValue d cyclic_heap 0 c = (Inl RangeError, c)"
proof (induction d)
  case 0
  show ?case by (simp add: engine_0)
next
  case (Suc d)
  then show ?case
    by (simp add: engine_Suc engine_body engine_fold cyclic_heap_def empty_heap_def)
qed

lemma holder_not_array: "\<not> isArrayType cyclic_heap (Obj 0)"
  by (simp add: isArrayType_def name_of_def text_of_def cyclic_heap_def empty_heap_def
      starts_with_def)

lemma holder_raises:
  "fst (getTypeSchema d cyclic_heap (Obj 0) empty_cache) = Inl RangeError"
proof (cases d)
  case 0
  then show ?thesis by (simp add: engine_0)
next
  case (Suc d1)
  have "fst (processObjectInstance d1 cyclic_heap (Obj 0) c) = Inl RangeError" for c
  proof (cases d1)
    case 0
    then show ?thesis by (simp add: engine_0)
  next
    case (Suc d2)
    have "own_entries cyclic_heap (Obj 0) = [(''items'', Arr 0)]"
      by (simp add: own_entries_def cyclic_heap_def empty_heap_def)
    then show ?thesis
      by (simp add: Suc engine_Suc processObjectInstance_body_def engine_fold cyclic_array_overflows)
  qed
  then obtain c2 where
    "processObjectInstance d1 cyclic_heap (Obj 0) (empty_cache(Obj 0 \<mapsto> object_schema)) =
       (Inl RangeError, c2)"
    by (metis prod.collapse)
  then show ?thesis
    by (simp add: Suc getTypeSchema_Suc getTypeSchema_body_def engine_fold empty_cache_def
        truthy_def holder_not_array Let_def)
qed

subsection \<open>Entries of String and Date in every reachable cache\<close>

lemma keep_upd_other:
  "cache_keeps_primitives c \<Longrightarrow> t \<noteq> Builtin B_String \<Longrightarrow> t \<noteq> Builtin B_Date
   \<Longrightarrow> cache_keeps_primitives (c(t \<mapsto> s))"
  by (simp add: cache_keeps_primitives_def)

lemma keep_upd_String:
  "cache_keeps_primitives c \<Longrightarrow> cache_keeps_primitives (c(Builtin B_String \<mapsto> string_schema))"
  by (simp add: cache_keeps_primitives_def)

lemma keep_upd_Date:
  "cache_keeps_primitives c \<Longrightarrow> cache_keeps_primitives (c(Builtin B_Date \<mapsto> date_time_schema))"
  by (simp add: cache_keeps_primitives_def)

lemma keep_final_update:
  assumes "cache_keeps_primitives (snd r)" and "t \<noteq> Builtin B_String" and "t \<noteq> Builtin B_Date"
  shows "cache_keeps_primitives
           (snd (case r of (Inl err, c2) \<Rightarrow> (Inl err, c2)
                         | (Inr schema, c2) \<Rightarrow> (Inr schema, c2(t \<mapsto> schema))))"
  using assms by (cases r; cases "fst r") (auto simp: keep_upd_other)

lemma keep_through_case:
  assumes "cache_keeps_primitives (snd r)"
  shows "cache_keeps_primitives
           (snd (case r of (Inl err, c2) \<Rightarrow> (Inl err, c2) | (Inr v, c2) \<Rightarrow> (Inr (g v), c2)))"
  using assms by (cases r; cases "fst r") auto

lemma assign_each_preserves:
  assumes "\<forall>v. preserves (f v)" and "cache_keeps_primitives c"
  shows "cache_keeps_primitives (snd (snd (assign_each f kvs ps c)))"
  using assms(2)
proof (induction kvs arbitrary: ps c)
  case Nil
  then show ?case by simp
next
  case (Cons kv kvs)
  from assms(1) Cons.prems have k: "cache_keeps_primitives (snd (f (snd kv) c))"
    by (simp add: preserves_def)
  show ?case
  proof (cases "f (snd kv) c")
    case (Pair r c')
    with k have k': "cache_keeps_primitives c'" by simp
    show ?thesis
    proof (cases r)
      case (Inl e)
      with Pair k' show ?thesis by simp
    next
      case (Inr s)
      with Pair Cons.IH [OF k'] show ?thesis by simp
    qed
  qed
qed

lemma getTypeSchema_body_preserves:
  assumes e: "engine_preserves e"
  shows "preserves (getTypeSchema_body h e t)"
  unfolding preserves_def
proof (intro allI impI)
  fix c assume c: "cache_keeps_primitives c"
  show "cache_keeps_primitives (snd (getTypeSchema_body h e t c))"
  proof (cases "c t")
    case (Some s)
    with c show ?thesis by (simp add: getTypeSchema_body_def)
  next
    case None
    let ?c1 = "c(t \<mapsto> object_schema)"
    consider (str) "t = Builtin B_String" | (date) "t = Builtin B_Date"
      | (other) "t \<noteq> Builtin B_String" "t \<noteq> Builtin B_Date"
      by blast
    then show ?thesis
    proof cases
      case str
      with None c show ?thesis
        by (simp add: getTypeSchema_body_def truthy_def keep_upd_String)
    next
      case date
      with None c show ?thesis
        by (simp add: getTypeSchema_body_def truthy_def keep_upd_Date)
    next
      case other
      from c other have c1: "cache_keeps_primitives ?c1" by (simp add: keep_upd_other)
      from e c1 have pa: "cache_keeps_primitives (snd (e_processArrayType e t ?c1))"
        and pf: "\<And>r. cache_keeps_primitives (snd (e_processFunctionType e r ?c1))"
        and po: "cache_keeps_primitives (snd (e_processObjectInstance e t ?c1))"
        by (simp_all add: engine_preserves_def preserves_def)
      show ?thesis
      proof (cases "truthy t")
        case False
        with None c1 show ?thesis by (simp add: getTypeSchema_body_def)
      next
        case True
        let ?inner =
          "(if t = Builtin B_String then (Inr string_schema, ?c1)
            else if t = Builtin B_Number \<or> t = Builtin B_BigInt then (Inr number_schema, ?c1)
            else if t = Builtin B_Boolean then (Inr boolean_schema, ?c1)
            else if t = Builtin B_Date then (Inr date_time_schema, ?c1)
            else if t = Builtin B_Buffer \<or> t = Builtin B_ArrayBuffer then (Inr binary_schema, ?c1)
            else if isArrayType h t then e_processArrayType e t ?c1
            else if t = Builtin B_Object then (Inr object_schema, ?c1)
            else (case t of
                    Fn r \<Rightarrow> e_processFunctionType e r ?c1
                  | Obj r \<Rightarrow> e_processObjectInstance e t ?c1
                  | Arr r \<Rightarrow> e_processObjectInstance e t ?c1
                  | DateV r \<Rightarrow> e_processObjectInstance e t ?c1
                  | Fresh n \<Rightarrow> e_processObjectInstance e t ?c1
                  | _ \<Rightarrow> (Inr object_schema, ?c1)))"
        have inner: "cache_keeps_primitives (snd ?inner)"
          using c1 pa pf po by (cases t) auto
        have "getTypeSchema_body h e t c =
                (case ?inner of (Inl err, c2) \<Rightarrow> (Inl err, c2)
                              | (Inr schema, c2) \<Rightarrow> (Inr schema, c2(t \<mapsto> schema)))"
          using None True by (simp add: getTypeSchema_body_def Let_def)
        then show ?thesis
          using keep_final_update [OF inner other] by simp
      qed
    qed
  qed
qed

lemma processArrayType_body_preserves:
  assumes e: "engine_preserves e"
  shows "preserves (processArrayType_body h e t)"
  unfolding preserves_def
proof (intro allI impI)
  fix c assume c: "cache_keeps_primitives c"
  from e c have "\<And>n. cache_keeps_primitives (snd (e_inferTypeFromName e n c))"
    by (simp add: engine_preserves_def preserves_def)
  with c show "cache_keeps_primitives (snd (processArrayType_body h e t c))"
    by (simp add: processArrayType_body_def keep_through_case split: option.splits)
qed

lemma inferTypeFromName_body_preserves:
  assumes e: "engine_preserves e"
  shows "preserves (inferTypeFromName_body h e n)"
  unfolding preserves_def
proof (intro allI impI)
  fix c assume c: "cache_keeps_primitives c"
  from e c have g: "\<And>t. cache_keeps_primitives (snd (e_getTypeSchema e t c))"
    by (simp add: engine_preserves_def preserves_def)
  have k: "cache_keeps_primitives
          (snd (case e_getTypeSchema e t c of (Inl err, c') \<Rightarrow> (Inr object_schema :: exn + schema, c')
                                            | (Inr schema, c') \<Rightarrow> (Inr schema, c')))" for t
    using g [of t] by (cases "e_getTypeSchema e t c"; cases "fst (e_getTypeSchema e t c)") auto
  show "cache_keeps_primitives (snd (inferTypeFromName_body h e n c))"
    using c k [of "global_of h n"] by (simp add: inferTypeFromName_body_def Let_def)
qed

lemma tryExtractMetadataProperties_body_preserves:
  assumes e: "engine_preserves e"
  shows "preserves (tryExtractMetadataProperties_body h e r ps)"
  unfolding preserves_def
proof (intro allI impI)
  fix c assume c: "cache_keeps_primitives c"
  from e have f: "\<forall>v. preserves (e_getTypeSchema e v)"
    by (simp add: engine_preserves_def)
  obtain o1 ps1 c1 where a1:
    "assign_each (e_getTypeSchema e) (fn_design_properties (fn_of h r)) ps c = (o1, ps1, c1)"
    using prod_cases3 by blast
  from assign_each_preserves [OF f c, of "fn_design_properties (fn_of h r)" ps] a1
  have c1: "cache_keeps_primitives c1" by simp
  obtain o2 ps2 c2 where a2:
    "assign_each (e_getTypeSchema e) (fn_design_type (fn_of h r)) ps1 c1 = (o2, ps2, c2)"
    using prod_cases3 by blast
  from assign_each_preserves [OF f c1, of "fn_design_type (fn_of h r)" ps1] a2
  have c2: "cache_keeps_primitives c2" by simp
  show "cache_keeps_primitives (snd (tryExtractMetadataProperties_body h e r ps c))"
    using a1 a2 c1 c2 by (cases o1) (simp_all add: tryExtractMetadataProperties_body_def)
qed

lemma tryInstantiateAndExtractProperties_body_preserves:
  assumes e: "engine_preserves e"
  shows "preserves (tryInstantiateAndExtractProperties_body h e r ps)"
  unfolding preserves_def
proof (intro allI impI)
  fix c assume c: "cache_keeps_primitives c"
  from e have f: "\<forall>v. preserves (e_inferSchemaFromValue e v)"
    by (simp add: engine_preserves_def)
  show "cache_keeps_primitives (snd (tryInstantiateAndExtractProperties_body h e r ps c))"
  proof (cases "fn_construct (fn_of h r)")
    case Throws
    with c show ?thesis by (simp add: tryInstantiateAndExtractProperties_body_def)
  next
    case (Constructs inst)
    let ?kvs = "filter (\<lambda>kv. fst kv \<noteq> ''constructor'' \<and> \<not> starts_with (fst kv) ''_'')
                       (obj_props (obj_of h inst))"
    obtain o1 ps1 c1 where a1: "assign_each (e_inferSchemaFromValue e) ?kvs ps c = (o1, ps1, c1)"
      using prod_cases3 by blast
    from assign_each_preserves [OF f c, of ?kvs ps] a1
    have "cache_keeps_primitives c1" by simp
    with Constructs a1 show ?thesis
      by (cases o1) (simp_all add: tryInstantiateAndExtractProperties_body_def)
  qed
qed

lemma processFunctionType_body_preserves:
  assumes e: "engine_preserves e"
  shows "preserves (processFunctionType_body h e r)"
  unfolding preserves_def
proof (intro allI impI)
  fix c assume c: "cache_keeps_primitives c"
  let ?inner =
    "(if fn_prototype (fn_of h r) then
        (case e_tryExtractMetadataProperties e r [] c of
           (Inl err, c1) \<Rightarrow> (Inl err, c1)
         | (Inr ps1, c1) \<Rightarrow>
             if length ps1 = 0 then e_tryInstantiateAndExtractProperties e r ps1 c1
             else (Inr ps1, c1))
      else (Inr (tryExtractPropertiesFromFunction h r []), c))"
  have inner: "cache_keeps_primitives (snd ?inner)"
  proof (cases "fn_prototype (fn_of h r)")
    case False
    with c show ?thesis by simp
  next
    case True
    obtain x c1 where m: "e_tryExtractMetadataProperties e r [] c = (x, c1)"
      by (cases "e_tryExtractMetadataProperties e r [] c")
    from e have "preserves (e_tryExtractMetadataProperties e r [])"
      by (simp add: engine_preserves_def)
    with c m have c1: "cache_keeps_primitives c1"
      unfolding preserves_def by fastforce
    from e c1 have "\<And>ps1. cache_keeps_primitives (snd (e_tryInstantiateAndExtractProperties e r ps1 c1))"
      by (simp add: engine_preserves_def preserves_def)
    with True m c1 show ?thesis by (cases x) auto
  qed
  obtain y c2 where i: "?inner = (y, c2)" by (cases ?inner)
  with inner have "cache_keeps_primitives c2" by simp
  moreover have "processFunctionType_body h e r c =
      (case (y, c2) of (Inl err, c2) \<Rightarrow> (Inl err, c2)
       | (Inr properties, c2) \<Rightarrow>
           if length properties > 0
           then (Inr (Schema ''object'' None None None (Some properties)), c2)
           else (Inr (Schema ''object'' None
                        (Some (''Schema for type '' @
                               (if fn_name (fn_of h r) = [] then ''Unknown'' else fn_name (fn_of h r))))
                        None None), c2))"
    unfolding processFunctionType_body_def i [symmetric] ..
  ultimately show "cache_keeps_primitives (snd (processFunctionType_body h e r c))"
    by (cases y) simp_all
qed

lemma processObjectInstance_body_preserves:
  assumes e: "engine_preserves e"
  shows "preserves (processObjectInstance_body h e t)"
  unfolding preserves_def
proof (intro allI impI)
  fix c assume c: "cache_keeps_primitives c"
  from e have f: "\<forall>v. preserves (e_inferSchemaFromValue e v)"
    by (simp add: engine_preserves_def)
  obtain o1 ps1 c1 where a1: "assign_each (e_inferSchemaFromValue e) (own_entries h t) [] c = (o1, ps1, c1)"
    using prod_cases3 by blast
  from assign_each_preserves [OF f c, of "own_entries h t" "[]"] a1
  have "cache_keeps_primitives c1" by simp
  with a1 show "cache_keeps_primitives (snd (processObjectInstance_body h e t c))"
    by (cases o1) (simp_all add: processObjectInstance_body_def)
qed

lemma inferSchemaFromValue_body_preserves:
  assumes e: "engine_preserves e"
  shows "preserves (inferSchemaFromValue_body h e v)"
  unfolding preserves_def
proof (intro allI impI)
  fix c assume c: "cache_keeps_primitives c"
  from e c have "\<And>t. cache_keeps_primitives (snd (e_getTypeSchema e t c))"
    and "\<And>r. cache_keeps_primitives (snd (e_processArrayValue e r c))"
    by (simp_all add: engine_preserves_def preserves_def)
  with c show "cache_keeps_primitives (snd (inferSchemaFromValue_body h e v c))"
    by (cases v) (simp_all add: inferSchemaFromValue_body_def)
qed

lemma processArrayValue_body_preserves:
  assumes e: "engine_preserves e"
  shows "preserves (processArrayValue_body h e r)"
  unfolding preserves_def
proof (intro allI impI)
  fix c assume c: "cache_keeps_primitives c"
  from e c have "\<And>v. cache_keeps_primitives (snd (e_inferSchemaFromValue e v c))"
    by (simp add: engine_preserves_def preserves_def)
  with c show "cache_keeps_primitives (snd (processArrayValue_body h e r c))"
    by (simp add: processArrayValue_body_def keep_through_case split: list.splits)
qed

lemma engine_at_preserves: "engine_preserves (engine_at d h)"
proof (induction d)
  case 0
  show ?case
    by (simp add: engine_at.simps stack_exhausted_def engine_preserves_def preserves_def)
next
  case (Suc d)
  then show ?case
    unfolding engine_at.simps Let_def
    by (subst engine_preserves_def)
       (simp add: getTypeSchema_body_preserves processArrayType_body_preserves
          inferTypeFromName_body_preserves processFunctionType_body_preserves
          tryExtractMetadataProperties_body_preserves
          tryInstantiateAndExtractProperties_body_preserves processObjectInstance_body_preserves
          inferSchemaFromValue_body_preserves processArrayValue_body_preserves)
qed

lemma reachable_cache_keeps_primitives:
  "reachable_cache h c \<Longrightarrow> cache_keeps_primitives c"
proof (induction rule: reachable_cache.induct)
  case initial
  show ?case by (simp add: cache_keeps_primitives_def empty_cache_def)
next
  case (call c d t)
  with engine_at_preserves [of d h] show ?case
    by (simp add: engine_preserves_def preserves_def getTypeSchema_def)
qed

lemma String_schema_reachable:
  assumes "reachable_cache h c"
  shows "getTypeSchema (Suc d) h (Builtin B_String) c =
           (Inr string_schema, c(Builtin B_String \<mapsto> string_schema))"
proof -
  from assms have "c (Builtin B_String) = None \<or> c (Builtin B_String) = Some string_schema"
    using reachable_cache_keeps_primitives by (simp add: cache_keeps_primitives_def)
  then show ?thesis
  proof
    assume "c (Builtin B_String) = None"
    then show ?thesis
      by (simp add: getTypeSchema_Suc getTypeSchema_body_def Let_def truthy_def)
  next
    assume s: "c (Builtin B_String) = Some string_schema"
    then have "c(Builtin B_String \<mapsto> string_schema) = c" by (rule map_upd_triv)
    with s show ?thesis by (simp add: getTypeSchema_cached)
  qed
qed

lemma Date_schema_reachable:
  assumes "reachable_cache h c"
  shows "getTypeSchema (Suc d) h (Builtin B_Date) c =
           (Inr date_time_schema, c(Builtin B_Date \<mapsto> date_time_schema))"
proof -
  from assms have "c (Builtin B_Date) = None \<or> c (Builtin B_Date) = Some date_time_schema"
    using reachable_cache_keeps_primitives by (simp add: cache_keeps_primitives_def)
  then show ?thesis
  proof
    assume "c (Builtin B_Date) = None"
    then show ?thesis
      by (simp add: getTypeSchema_Suc getTypeSchema_body_def Let_def truthy_def)
  next
    assume s: "c (Builtin B_Date) = Some date_time_schema"
    then have "c(Builtin B_Date \<mapsto> date_time_schema) = c" by (rule map_upd_triv)
    with s show ?thesis by (simp add: getTypeSchema_cached)
  qed
qed

subsection \<open>A class whose instance holds a cyclic array\<close>











subsection \<open>Array descriptors\<close>

lemma array_branch_unrecoverable:
  assumes fresh: "c t = None" and arr: "array_typed h t" and un: "element_type_unrecoverable h t"
  shows "getTypeSchema (Suc (Suc (Suc d))) h t c =
           (Inr (array_schema object_schema), c(t \<mapsto> array_schema object_schema))"
proof -
  let ?c1 = "c(t \<mapsto> object_schema)"
  from arr have tr: "truthy t" and nb: "t \<notin> Builtin ` fast_path_builtins" and ia: "isArrayType h t"
    by (simp_all add: array_typed_def)
  have pa: "processArrayType (Suc (Suc d)) h t ?c1 = (Inr (array_schema object_schema), ?c1)"
  proof (cases "match_generic (text_of h t)")
    case None
    with tr show ?thesis
      by (simp add: processArrayType_Suc processArrayType_body_def)
  next
    case (Some cap)
    with un have "inferTypeFromName (Suc d) h (trim cap) ?c1 = (Inr object_schema, ?c1)"
      by (auto simp: element_type_unrecoverable_def inferTypeFromName_Suc inferTypeFromName_body_def
          Let_def)
    with Some tr show ?thesis
      by (simp add: processArrayType_Suc processArrayType_body_def engine_fold)
  qed
  from nb have "t \<noteq> Builtin B_String" "t \<noteq> Builtin B_Number" "t \<noteq> Builtin B_BigInt"
    "t \<noteq> Builtin B_Boolean" "t \<noteq> Builtin B_Date" "t \<noteq> Builtin B_Buffer"
    "t \<noteq> Builtin B_ArrayBuffer"
    by (auto simp: fast_path_builtins_def)
  with fresh tr ia pa show ?thesis
    by (simp add: getTypeSchema_Suc getTypeSchema_body_def engine_fold Let_def)
qed

text \<open>
  Claim C9. In every cache the engine can have built, the descriptor \<open>String\<close> yields
  \<open>{type: "string"}\<close> and the descriptor \<open>Date\<close> yields
  \<open>{type: "string", format: "date-time"}\<close>; a descriptor that takes the array branch and whose
  element type cannot be recovered yields \<open>{type: "array", items: {type: "object"}}\<close> when it
  is inferred for the first time. Each result is stored in the cache.
\<close>

theorem C9_primitive_date_and_array_schemas:
  "(reachable_cache h c \<longrightarrow>
      getTypeSchema (Suc d) h (Builtin B_String) c =
        (Inr string_schema, c(Builtin B_String \<mapsto> string_schema)))
   \<and> (reachable_cache h c \<longrightarrow>
      getTypeSchema (Suc d) h (Builtin B_Date) c =
        (Inr date_time_schema, c(Builtin B_Date \<mapsto> date_time_schema)))
   \<and> (c t = None \<and> array_typed h t \<and> element_type_unrecoverable h t \<longrightarrow>
      getTypeSchema (Suc (Suc (Suc d))) h t c =
        (Inr (array_schema object_schema), c(t \<mapsto> array_schema object_schema)))"
  by (simp add: array_branch_unrecoverable String_schema_reachable Date_schema_reachable)

lemma Array_constructor_unrecoverable:
  "array_typed h (Builtin B_Array) \<and> element_type_unrecoverable h (Builtin B_Array)"
  by (simp add: array_typed_def element_type_unrecoverable_def truthy_def isArrayType_def
      fast_path_builtins_def text_of_def builtin_name_def starts_with_def)

text \<open>\<open>String\<close>, \<open>Date\<close> and the \<open>Array\<close> constructor on an empty cache.\<close>

theorem C9_witness:
  "getTypeSchema (Suc 0) empty_heap (Builtin B_String) empty_cache =
        (Inr string_schema, empty_cache(Builtin B_String \<mapsto> string_schema))
   \<and> getTypeSchema (Suc 0) empty_heap (Builtin B_Date) empty_cache =
        (Inr date_time_schema, empty_cache(Builtin B_Date \<mapsto> date_time_schema))
   \<and> getTypeSchema (Suc (Suc (Suc 0))) empty_heap (Builtin B_Array) empty_cache =
        (Inr (array_schema object_schema),
         empty_cache(Builtin B_Array \<mapsto> array_schema object_schema))"
  using C9_primitive_date_and_array_schemas [of empty_heap empty_cache 0 "Builtin B_Array"]
    Array_constructor_unrecoverable [of empty_heap] reachable_cache.initial [of empty_heap]
  by (simp add: empty_cache_def)

section \<open>Decorators, builder and binder together: proofs\<close>

lemma users_store:
  "ds_store (users_state d h) =
     \<lparr> metadata = \<lparr> controllers = [(0, \<lparr> c_path = ''/users'', c_description = None, c_tags = None \<rparr>)],
                    routes = [(0, [\<lparr> r_path = ''/'', r_method = GET, r_handlerName = ''getUsers'',
                                     r_description = None, r_summary = None, r_tags = None,
                                     r_parameters = Some [], r_responses = Some [] \<rparr>])] \<rparr> \<rparr>"
  by (simp add: users_state_def Controller_st_def Controller_def Get_def createMethodDecorator_def
      default_body_parameter_def route_responses_def route_record_def
      getUsers_decl_def initial_state_def no_route_options_def no_controller_options_def
      new_MetadataStorage_def addRouteMetadata_def addControllerMetadata_def obj_or_def spread_def
      truthy_def has_response_def startsWith_slash_def Let_def)

lemma users_paths:
  "paths (fst (generateOpenAPISpec (options_with_base b) (ds_store (users_state d h)))) =
     [(replace_slashes (str_or b [] @ ''/users''),
       [(GET, \<lparr> op_summary = None, op_description = None, op_tags = [], op_responses = [],
                 op_parameters = None, op_requestBody = None \<rparr>)])]"
  by (simp add: users_store generateOpenAPISpec_def getMetadata_def controller_step_def
      route_step_def initial_spec_def set_operation_def fullPath_def routeSpec_def obj_or_def
      options_with_base_def startsWith_slash_def Let_def)

text \<open>
  Claim C1. The path keys of the generated document are exactly the compositions, over every
  stored controller and each of its routes, of the global base, the controller's base path
  and the route path (both with a slash put in front when they have none), with a route path
  \<open>/\<close> left out and every run of slashes collapsed to one. The controller registered at
  \<open>users\<close> with a \<open>Get('/')\<close> route gives the single key \<open>/users\<close> for the base \<open>""\<close> and
  \<open>/api/v1/users\<close> for the base \<open>/api/v1\<close>.
\<close>

theorem C1_path_key_is_collapsed_concatenation:
  "fst ` set (paths (fst (generateOpenAPISpec opts st))) =
     {composed_path_spec (str_or (o_base opts) []) (lead_slash (c_path cm)) (lead_slash (r_path r))
      | k cm r. (k, cm) \<in> set (controllers (metadata st)) \<and>
                r \<in> set (obj_or (map_of (routes (metadata st)) k) [])}
   \<and> fullPath opts cm r =
       collapse_runs (str_or (o_base opts) [] @ lead_slash (c_path cm) @
                      (if lead_slash (r_path r) = ''/'' then [] else lead_slash (r_path r)))
   \<and> map fst (paths (fst (generateOpenAPISpec (options_with_base (Some []))
                             (ds_store (users_state d h))))) = [''/users'']
   \<and> map fst (paths (fst (generateOpenAPISpec (options_with_base (Some ''/api/v1''))
                             (ds_store (users_state d h))))) = [''/api/v1/users'']"
  by (simp add: generate_keys users_paths str_or_def fullPath_spec composed_path_spec_def)

lemma default_responses_when_absent:
  "r_responses route = None \<Longrightarrow> op_responses (routeSpec cm route) = default_responses"
  by (simp add: routeSpec_def obj_or_def Let_def split: option.splits list.splits)

text \<open>
  Claim C3 says that a route that declared no responses gets the default response \<open>200\<close>,
  routes registered by the method decorators included. The builder's default stands behind
  \<open>route.responses ||\<close>, and the method decorators always store a responses object, empty
  when nothing was declared or inferred; an empty object is truthy. The operation of
  \<open>@Get('/') getUsers() {}\<close> is emitted with an empty \<open>responses\<close> object.
\<close>

theorem C3_decorated_route_without_responses:
  "paths (fst (generateOpenAPISpec (options_with_base None) (ds_store (users_state d h)))) =
     [(''/users'',
       [(GET, \<lparr> op_summary = None, op_description = None, op_tags = [], op_responses = [],
                 op_parameters = None, op_requestBody = None \<rparr>)])]
   \<and> default_responses \<noteq> []"
  by (simp add: users_paths str_or_def default_responses_def)

lemma error_store:
  "ds_store (error_state d h) =
     \<lparr> metadata = \<lparr> controllers = [(0, \<lparr> c_path = ''/error'', c_description = None, c_tags = None \<rparr>)],
                    routes = [(0, [\<lparr> r_path = ''/'', r_method = GET, r_handlerName = ''fail'',
                                     r_description = None, r_summary = None, r_tags = None,
                                     r_parameters = Some [], r_responses = Some [] \<rparr>])] \<rparr> \<rparr>"
  by (simp add: error_state_def Controller_st_def Controller_def Get_def createMethodDecorator_def
      default_body_parameter_def route_responses_def route_record_def
      fail_decl_def initial_state_def no_route_options_def no_controller_options_def
      new_MetadataStorage_def addRouteMetadata_def addControllerMetadata_def obj_or_def spread_def
      truthy_def has_response_def startsWith_slash_def Let_def)

text \<open>
  A handler that throws, or rejects with, a value that has properties is answered with
  status 500 and the value's \<open>message\<close> when that is truthy, with the default text otherwise.
\<close>

lemma wrapper_sends_message:
  assumes "await_resolve (controllerInstance handlerName req) = Caught (WithMessage message)"
  shows "route_wrapper controllerInstance handlerName req =
           ([Status 500, Send (if truthy message then message else VStr ''Internal Server Error'')],
            Fulfilled)"
  using assms by (simp add: route_wrapper_def catch_block_def)

lemma error_x_is_answered:
  "map (\<lambda>b. (reg_mount b, reg_method b, reg_path b, reg_handler b ()))
       (registerControllers (options_with_base None) [0] (\<lambda>k. throwing_instance)
          (ds_store (error_state d h)))
     = [(''/error'', GET, ''/'', ([Status 500, Send (VStr ''x'')], Fulfilled))]"
  by (simp add: error_store registerControllers_def controller_registrations_def
      route_wrapper_def await_resolve_def catch_block_def throwing_instance_def truthy_def
      options_with_base_def str_or_def obj_or_def startsWith_slash_def Let_def)

text \<open>Every stored route of a registered controller is bound to the wrapper of its handler.\<close>

lemma registered_handlers:
  "map reg_handler (registerControllers openApiDoc [k] instances st) =
     map (\<lambda>route. route_wrapper (instances k) (r_handlerName route))
         (obj_or (map_of (routes (metadata st)) k) [])"
  by (simp add: registerControllers_def controller_registrations_def Let_def comp_def)

text \<open>
  Claim C7 says that every handler that throws, or returns a rejecting deferred value, is
  answered with status 500 and the error's message, or a default message when the error has
  none. The \<open>catch\<close> block reads \<open>error.message || 'Internal Server Error'\<close>: the default
  is there for an error without a message, and misses the error that is \<open>undefined\<close> or
  \<open>null\<close>, of which \<open>message\<close> cannot be read. For the controller
  \<open>@Controller('/error') class ErrorController { @Get('/') fail() { return Promise.reject(); } }\<close>
  the function that \<open>registerControllers\<close> binds to \<open>GET /\<close> under \<open>/error\<close> sets the
  status 500, sends nothing, and itself rejects with a \<open>TypeError\<close>.
\<close>

theorem C7_rejection_without_reason_sends_nothing:
  "map (\<lambda>b. (reg_mount b, reg_method b, reg_path b, reg_handler b ()))
       (registerControllers (options_with_base None) [0] (\<lambda>k. rejecting_instance)
          (ds_store (error_state d h)))
     = [(''/error'', GET, ''/'', ([Status 500], Rejected TypeError))]"
  by (simp add: error_store registerControllers_def controller_registrations_def
      route_wrapper_def await_resolve_def catch_block_def rejecting_instance_def
      options_with_base_def str_or_def obj_or_def startsWith_slash_def Let_def)

section \<open>The method decorators: proofs\<close>

subsection \<open>The decorators reach the cache through getTypeSchema only\<close>

lemma reach_st:
  "reachable_cache h (fst cn) \<Longrightarrow> reachable_cache h (fst (snd (getTypeSchema_st d h t cn)))"
  using reachable_cache.call [of h "fst cn" d t]
  by (auto simp: getTypeSchema_st_def split: prod.splits)

lemma reach_fresh:
  "reachable_cache h (fst cn) \<Longrightarrow> reachable_cache h (fst (snd (getTypeSchema_fresh d h cn)))"
  using reachable_cache.call [of h "fst cn" d "Fresh (snd cn)"]
  by (auto simp: getTypeSchema_fresh_def split: prod.splits)

lemma reach_wrap:
  "reachable_cache h (fst (snd r)) \<Longrightarrow> reachable_cache h (fst (snd (wrap_array r)))"
  by (cases r; cases "fst r") (auto simp: wrap_array_def)

lemma reach_try:
  assumes "reachable_cache h (fst (snd body))"
    and "\<And>cn. reachable_cache h (fst cn) \<Longrightarrow> reachable_cache h (fst (snd (handler cn)))"
  shows "reachable_cache h (fst (snd (try_catch body handler)))"
  using assms by (cases body; cases "fst body") (auto simp: try_catch_def)

lemma reach_if:
  "reachable_cache h (fst (snd x)) \<Longrightarrow> reachable_cache h (fst (snd y))
   \<Longrightarrow> reachable_cache h (fst (snd (if b then x else y)))"
  by simp

lemma reach_option:
  "reachable_cache h (fst (snd x)) \<Longrightarrow> (\<And>v. reachable_cache h (fst (snd (f v))))
   \<Longrightarrow> reachable_cache h (fst (snd (case ov of None \<Rightarrow> x | Some v \<Rightarrow> f v)))"
  by (cases ov) auto

lemma reach_value:
  "reachable_cache h (fst cn) \<Longrightarrow> reachable_cache h (fst (snd (r, cn)))"
  by simp

lemma response_schema_reach:
  assumes r: "reachable_cache h (fst cn)"
  shows "reachable_cache h (fst (snd (response_schema d h decl ps cn)))"
  unfolding response_schema_def Let_def
  by (intro reach_if reach_option reach_try reach_wrap reach_fresh reach_st reach_value r
        | assumption)+

lemma Body_reach:
  assumes "reachable_cache h (ds_cache s)"
  shows "reachable_cache h (ds_cache (snd (Body d h bopts decl target key idx s)))"
  using reachable_cache.call [OF assms, of d
      "if idx < length (m_paramTypes decl) then m_paramTypes decl ! idx else Undefined"]
  by (auto simp: Body_def Let_def split: prod.splits sum.splits)

lemma default_body_parameter_reach:
  assumes r: "reachable_cache h c"
  shows "reachable_cache h (snd (default_body_parameter meth d h decl ps c))"
  using r reachable_cache.call [OF r, of d "m_paramTypes decl ! 0"]
  by (auto simp: default_body_parameter_def Let_def split: prod.splits sum.splits)

lemma route_responses_reach:
  assumes r: "reachable_cache h (fst cn)"
  shows "reachable_cache h (fst (snd (route_responses meth d h decl ps cn)))"
  using r response_schema_reach [OF r, of d decl ps]
  by (auto simp: route_responses_def Let_def split: prod.splits sum.splits)

lemma createMethodDecorator_reach:
  assumes r: "reachable_cache h (ds_cache s)"
  shows "reachable_cache h (ds_cache (snd (createMethodDecorator meth d h path ropts decl target
           key s)))"
proof -
  let ?dp = "obj_or (map_of (ds_parameters s) (target, key)) []"
  obtain x c1 where b: "default_body_parameter meth d h decl ?dp (ds_cache s) = (x, c1)"
    by (cases "default_body_parameter meth d h decl ?dp (ds_cache s)")
  with default_body_parameter_reach [OF r, of meth d decl ?dp]
  have c1: "reachable_cache h c1" by simp
  show ?thesis
  proof (cases x)
    case (Inl e)
    with b c1 show ?thesis by (simp add: createMethodDecorator_def Let_def)
  next
    case (Inr parameters)
    obtain y c2 n2 where rr:
      "route_responses meth d h decl parameters (c1, ds_fresh s) = (y, c2, n2)"
      using prod_cases3 by blast
    with route_responses_reach [of h "(c1, ds_fresh s)" meth d decl parameters] c1
    have "reachable_cache h c2" by simp
    with b Inr rr show ?thesis
      by (cases y) (simp_all add: createMethodDecorator_def Let_def)
  qed
qed

text \<open>
  Claim C4 ties the default success response to a declared parameter. The decorator adds it
  only when reflection reports a return type: \<open>@Post('/items') createItem(dto: String)\<close>
  without a declared return type is stored with the body parameter and no response at all.
\<close>

theorem C4_counterexample:
  "fst (Post (Suc 0) empty_heap (Some ''/items'') no_route_options createItem_decl 0 ''createItem''
          initial_state) = Inr ()
   \<and> map r_responses
        (obj_or (map_of (routes (metadata (ds_store (snd
           (Post (Suc 0) empty_heap (Some ''/items'') no_route_options createItem_decl 0
              ''createItem'' initial_state))))) 0) []) = [Some []]
   \<and> map r_parameters
        (obj_or (map_of (routes (metadata (ds_store (snd
           (Post (Suc 0) empty_heap (Some ''/items'') no_route_options createItem_decl 0
              ''createItem'' initial_state))))) 0) []) =
       [Some [\<lparr> p_name = ''body'', p_in = InBody, p_required = Some True, p_type = ''object'',
                 p_description = Some ''Request body'', p_schema = Some string_schema \<rparr>]]"
  by (simp add: Post_def createMethodDecorator_def default_body_parameter_def route_responses_def route_record_def createItem_decl_def initial_state_def
      no_route_options_def new_MetadataStorage_def addRouteMetadata_def obj_or_def spread_def
      truthy_def has_response_def startsWith_slash_def Let_def empty_cache_def
      getTypeSchema_Suc getTypeSchema_body_def)


lemma route_responses_value:
  assumes "route_responses meth d h decl ps cn = (Inr responses, cn')"
  shows "if truthy (m_returnType decl) \<and> \<not> has_response (m_pendingResponses decl) ''200''
            \<and> \<not> has_response (m_pendingResponses decl) ''201''
         then \<exists>schema. responses =
                AList.update (if meth = POST then ''201'' else ''200'')
                  \<lparr> resp_description = (if meth = POST then ''Created successfully''
                                        else ''Successful response''),
                    resp_content = Some [(''application/json'', schema)] \<rparr>
                  (m_pendingResponses decl)
         else responses = m_pendingResponses decl"
  using assms
  by (auto simp: route_responses_def Let_def split: prod.splits sum.splits if_splits)

lemma addRouteMetadata_appends:
  "map_of (routes (metadata (addRouteMetadata target rm st))) target =
     Some (obj_or (map_of (routes (metadata st)) target) [] @ [rm])"
  by (simp add: addRouteMetadata_def AList.update_conv' obj_or_def Let_def)

text \<open>
  Claim C4, amended. Whenever a method decorator registers a route and its options carry no
  \<open>responses\<close> of their own: if reflection reports a return type and no response is supplied
  under \<open>200\<close> or \<open>201\<close>, the stored route has the supplied responses plus one success
  response with a JSON schema, under \<open>201\<close> (\<open>Created successfully\<close>) for POST and under \<open>200\<close>
  (\<open>Successful response\<close>) for every other method; otherwise (no return type, or a response
  under \<open>200\<close> or \<open>201\<close> already there) the stored responses are the supplied ones
  unchanged. Declared parameters play no part.
\<close>

theorem C4_default_success_response:
  assumes ok: "createMethodDecorator meth d h path ropts decl target key s = (Inr (), s')"
    and no_override: "ro_responses ropts = None"
  shows "\<exists>route. map_of (routes (metadata (ds_store s'))) target =
            Some (obj_or (map_of (routes (metadata (ds_store s))) target) [] @ [route])
         \<and> (if truthy (m_returnType decl) \<and> \<not> has_response (m_pendingResponses decl) ''200''
                 \<and> \<not> has_response (m_pendingResponses decl) ''201''
             then \<exists>schema. r_responses route =
                    Some (AList.update (if meth = POST then ''201'' else ''200'')
                            \<lparr> resp_description = (if meth = POST then ''Created successfully''
                                                  else ''Successful response''),
                              resp_content = Some [(''application/json'', schema)] \<rparr>
                            (m_pendingResponses decl))
             else r_responses route = Some (m_pendingResponses decl))"
proof -
  let ?dp = "obj_or (map_of (ds_parameters s) (target, key)) []"
  obtain x c1 where b: "default_body_parameter meth d h decl ?dp (ds_cache s) = (x, c1)"
    by (cases "default_body_parameter meth d h decl ?dp (ds_cache s)")
  from ok b obtain parameters where x: "x = Inr parameters"
    by (cases x) (simp_all add: createMethodDecorator_def Let_def)
  obtain y c2 n2 where rr:
    "route_responses meth d h decl parameters (c1, ds_fresh s) = (y, c2, n2)"
    using prod_cases3 by blast
  from ok b x rr obtain responses where y: "y = Inr responses"
    by (cases y) (simp_all add: createMethodDecorator_def Let_def)
  let ?route = "route_record meth (obj_or path ''/'') ropts key parameters responses"
  from ok b x rr y have s': "ds_store s' = addRouteMetadata target ?route (ds_store s)"
    by (auto simp: createMethodDecorator_def Let_def)
  have rv: "r_responses ?route = Some responses"
    using no_override by (simp add: route_record_def spread_def)
  from route_responses_value [of meth d h decl parameters "(c1, ds_fresh s)" responses "(c2, n2)"]
    rr y
  have "if truthy (m_returnType decl) \<and> \<not> has_response (m_pendingResponses decl) ''200''
            \<and> \<not> has_response (m_pendingResponses decl) ''201''
         then \<exists>schema. responses =
                AList.update (if meth = POST then ''201'' else ''200'')
                  \<lparr> resp_description = (if meth = POST then ''Created successfully''
                                        else ''Successful response''),
                    resp_content = Some [(''application/json'', schema)] \<rparr>
                  (m_pendingResponses decl)
         else responses = m_pendingResponses decl"
    by simp
  with rv have "if truthy (m_returnType decl) \<and> \<not> has_response (m_pendingResponses decl) ''200''
                 \<and> \<not> has_response (m_pendingResponses decl) ''201''
             then \<exists>schema. r_responses ?route =
                    Some (AList.update (if meth = POST then ''201'' else ''200'')
                            \<lparr> resp_description = (if meth = POST then ''Created successfully''
                                                  else ''Successful response''),
                              resp_content = Some [(''application/json'', schema)] \<rparr>
                            (m_pendingResponses decl))
             else r_responses ?route = Some (m_pendingResponses decl)"
    by (simp split: if_splits)
  with s' show ?thesis
    using addRouteMetadata_appends [of target ?route "ds_store s"] by auto
qed

lemma createItem_typed_registers:
  "Post (Suc 0) empty_heap (Some ''/items'') no_route_options createItem_typed_decl 0 ''createItem''
      initial_state =
   (Inr (), \<lparr> ds_cache = empty_cache(Builtin B_String \<mapsto> string_schema),
              ds_store = \<lparr> metadata = \<lparr> controllers = [],
                 routes = [(0, [\<lparr> r_path = ''/items'', r_method = POST, r_handlerName = ''createItem'',
                    r_description = None, r_summary = None, r_tags = None,
                    r_parameters = Some [\<lparr> p_name = ''body'', p_in = InBody, p_required = Some True,
                       p_type = ''object'', p_description = Some ''Request body'',
                       p_schema = Some string_schema \<rparr>],
                    r_responses = Some [(''201'', \<lparr> resp_description = ''Created successfully'',
                       resp_content = Some [(''application/json'', string_schema)] \<rparr>)] \<rparr>])] \<rparr> \<rparr>,
              ds_parameters = [], ds_fresh = 0 \<rparr>)"
  by (simp add: Post_def createMethodDecorator_def default_body_parameter_def route_responses_def route_record_def createItem_typed_decl_def initial_state_def
      no_route_options_def new_MetadataStorage_def addRouteMetadata_def obj_or_def spread_def
      truthy_def has_response_def startsWith_slash_def Let_def empty_cache_def
      getTypeSchema_Suc getTypeSchema_body_def response_schema_def isArrayType_def name_of_def
      text_of_def builtin_name_def starts_with_def try_catch_def getTypeSchema_st_def trim_def
      is_ws_def)

text \<open>
  \<open>@Post('/items') createItem(dto: String): String\<close>: the stored route has the response
  \<open>201\<close>.
\<close>

theorem C4_witness:
  "createMethodDecorator POST (Suc 0) empty_heap (Some ''/items'') no_route_options
      createItem_typed_decl 0 ''createItem'' initial_state =
     (Inr (), snd (Post (Suc 0) empty_heap (Some ''/items'') no_route_options
      createItem_typed_decl 0 ''createItem'' initial_state))
   \<and> ro_responses no_route_options = None
   \<and> (\<exists>route. map_of (routes (metadata (ds_store (snd (Post (Suc 0) empty_heap (Some ''/items'')
          no_route_options createItem_typed_decl 0 ''createItem'' initial_state))))) 0 = Some [route]
        \<and> r_responses route = Some [(''201'', \<lparr> resp_description = ''Created successfully'',
                       resp_content = Some [(''application/json'', string_schema)] \<rparr>)])"
proof -
  have ev: "createMethodDecorator POST (Suc 0) empty_heap (Some ''/items'') no_route_options
      createItem_typed_decl 0 ''createItem'' initial_state =
     (Inr (), snd (Post (Suc 0) empty_heap (Some ''/items'') no_route_options
      createItem_typed_decl 0 ''createItem'' initial_state))"
    using createItem_typed_registers by (simp add: Post_def)
  have no: "ro_responses no_route_options = None"
    by (simp add: no_route_options_def)
  from C4_default_success_response [OF ev no] ev no show ?thesis
    by (simp add: createItem_typed_registers)
qed

text \<open>
  Claim C6 says that schema inference never raises, whatever it is given. The cache protects
  \<open>getTypeSchema\<close> only: \<open>inferSchemaFromValue\<close> and \<open>processArrayValue\<close> call each other on
  the first element of an array without consulting it, and \<open>processObjectInstance\<close> has no
  \<open>try\<close> around them. For the plain object \<open>holder\<close> whose property is an array that is
  its own first element, \<open>getTypeSchema\<close> raises \<open>RangeError\<close> whatever the size of the call
  stack, and so does the \<open>Body\<close> decorator of a parameter whose reflected type is this
  object: the exception leaves the engine at class declaration time.
\<close>

theorem C6_cyclic_array_value_raises:
  "fst (getTypeSchema d cyclic_heap (Obj 0) empty_cache) = Inl RangeError
   \<and> fst (Body d cyclic_heap \<lparr> bo_description = None, bo_required = None \<rparr> holder_decl 0
              ''create'' 0 initial_state) = Inl RangeError"
proof -
  obtain c' where "getTypeSchema d cyclic_heap (Obj 0) empty_cache = (Inl RangeError, c')"
    using holder_raises [of d] by (metis prod.collapse)
  then show ?thesis
    by (simp add: Body_def holder_decl_def initial_state_def Let_def)
qed

end
